theory Spec2Isabelle
  imports Main "HOL-Library.Word"
begin

unbundle bit_operations_syntax

section \<open>The deposit and settlement services of zkwasm-mini-service\<close>

text \<open>
  A shallow embedding of the deposit service (class \<open>Deposit\<close>: \<open>createCommand\<close>,
  \<open>updateTxState\<close>, \<open>performDeposit\<close>, \<open>processTopUpEvent\<close>,
  \<open>getHistoricalTopUpEvents\<close>) and of the proof-instance reduction
  (\<open>extractMerkleRoot\<close>, \<open>extractNewMerkleRoot\<close>, \<open>extractShaHash\<close>).

  JavaScript \<open>bigint\<close> values are \<open>int\<close>; a \<open>BigUint64Array\<close> is a list of
  \<open>64 word\<close>; strings are \<open>string\<close>.
\<close>

subsection \<open>BigInt helpers\<close>

text \<open>\<open>BigInt.asUintN(64, v)\<close>: the value modulo \<open>2^64\<close>.\<close>

definition asUintN64 :: "int \<Rightarrow> int" where
  "asUintN64 v = v mod 2 ^ 64"

text \<open>
  Division of two \<open>bigint\<close>s truncates towards zero (HOL's \<open>div\<close> rounds towards
  minus infinity).
\<close>

definition bigint_div :: "int \<Rightarrow> int \<Rightarrow> int" where
  "bigint_div a b = sgn a * sgn b * (\<bar>a\<bar> div \<bar>b\<bar>)"

text \<open>
  \<open>BigInt(10 ** 18)\<close>: the double \<open>10 ** 18\<close> is exactly \<open>10^18\<close>
  (\<open>10^18 = 2^18 * 5^18\<close> and \<open>5^18 < 2^53\<close>), so the divisor is \<open>10^18\<close>.
\<close>

definition WEI_PER_ETHER :: int where
  "WEI_PER_ETHER = 10 ^ 18"

subsection \<open>createCommand\<close>

text \<open>
  \<^verbatim>\<open>
  const cmd = (nonce << 16n) + (BigInt(params.length + 1) << 8n) + command;
  let buf = [cmd];
  buf = buf.concat(params);
  const barray = new BigUint64Array(buf);
  \<close>
  The constructor of \<open>BigUint64Array\<close> reduces every element modulo \<open>2^64\<close>, which
  is \<open>word_of_int\<close>.
\<close>

definition createCommand :: "int \<Rightarrow> int \<Rightarrow> int list \<Rightarrow> 64 word list" where
  "createCommand nonce command params =
     (let cmd = push_bit 16 nonce + push_bit 8 (int (length params + 1)) + command;
          buf = [cmd] @ params
      in map word_of_int buf)"


subsection \<open>Outcomes of asynchronous code\<close>

text \<open>
  An \<open>async\<close> function either returns a value, throws (its promise is rejected), or
  ends the process with \<open>process.exit(code)\<close>. An exit is not an exception: no
  \<open>catch\<close> handler and no \<open>finally\<close> block runs after it.
\<close>

datatype error =
    DecodeFailed \<comment> \<open>\<open>new Error('Failed to decode event')\<close>\<close>
  | DepositFailed string \<comment> \<open>\<open>new Error(`Deposit failed for transaction ${txHash}`)\<close>\<close>
  | StoreError \<comment> \<open>an error thrown by the document store\<close>
  | RpcError \<comment> \<open>an error thrown by the L2 RPC client\<close>
  | ProviderError \<comment> \<open>an error thrown by the L1 provider or contract\<close>
  | TypeError \<comment> \<open>a JavaScript \<open>TypeError\<close>\<close>

datatype 'a outcome = Ret 'a | Throw error | Exit nat

datatype 'a resp = Resolved 'a | Rejected error

subsection \<open>Data model\<close>

text \<open>
  One document of the model \<open>TxHash\<close> (the schema \<open>txSchema\<close>). The path
  \<open>txHash\<close> (required and unique) is the key under which the store holds the
  document; the record has the other paths. \<open>state\<close> is a \<open>String\<close> in the store;
  \<open>nonce\<close> and \<open>lastRetryTime\<close> are optional.
\<close>

record tx_doc =
  state :: string
  timestamp :: nat
  l1token :: string
  address :: string
  nonce :: "int option"
  pid_1 :: int
  pid_2 :: int
  amount :: int
  retryCount :: nat
  lastRetryTime :: "nat option"

text \<open>The arguments of a decoded \<open>TopUp\<close> event, and the log entry that carries it.
  \<open>parsed\<close> is the result of \<open>parseLog\<close>: \<open>None\<close> when it returns \<open>null\<close>.\<close>

record topup_args =
  arg_l1token :: string
  arg_address :: string
  arg_pid_1 :: int
  arg_pid_2 :: int
  arg_amount :: int

record event_log =
  transactionHash :: string
  parsed :: "topup_args option"

text \<open>
  The calls made on the L2 RPC client \<open>admin\<close>. A \<open>CallDeposit\<close> entry also records
  the document persisted under the deposit's \<open>txHash\<close> at the instant the call is issued
  (an observation of the store, used to state what is durable before a submission).
\<close>

datatype l2_call =
    CallGetNonce
  | CallCheckDeposit int int int int int
  | CallDeposit int int int int int "tx_doc option"

text \<open>
  The process state: the document store (keyed by \<open>txHash\<close>, which the schema declares
  unique), the reentrancy flag \<open>isProcessingDeposit\<close>, the number of external calls made
  so far, and the L2 calls issued so far, oldest first.
\<close>

record world =
  store :: "string \<rightharpoonup> tx_doc"
  isProcessingDeposit :: bool
  tick :: nat
  calls :: "l2_call list"

text \<open>
  The environment answers every external call. Each answer is indexed by the number of
  external calls the process has made before it (\<open>tick\<close>), so the same call can be
  answered differently each time.
  \<^item> \<open>contract_allTokens\<close>: \<open>proxyContract.allTokens()\<close>, the list of \<open>token_uid\<close>s;
  \<^item> \<open>rpc_getNonce\<close>: \<open>admin.getNonce()\<close>, \<open>None\<close> for \<open>null\<close>;
  \<^item> \<open>rpc_checkDeposit\<close>: the \<open>data\<close> field of the result of
    \<open>admin.checkDeposit(...)\<close>, \<open>None\<close> for \<open>null\<close> (a result with no field to read
    is a \<open>Rejected TypeError\<close>);
  \<^item> \<open>rpc_deposit\<close>: whether the result of \<open>admin.deposit(...)\<close> is truthy;
  \<^item> \<open>db_fails\<close>: whether the store operation issued at that instant throws;
  \<^item> \<open>clock_now\<close>: \<open>Date.now()\<close>.
\<close>

record env =
  contract_allTokens :: "nat \<Rightarrow> string list resp"
  rpc_getNonce :: "nat \<Rightarrow> int option resp"
  rpc_checkDeposit :: "nat \<Rightarrow> string option resp"
  rpc_deposit :: "nat \<Rightarrow> bool resp"
  db_fails :: "nat \<Rightarrow> bool"
  clock_now :: "nat \<Rightarrow> nat"

type_synonym 'a io = "world \<Rightarrow> 'a outcome \<times> world"

definition io_ret :: "'a \<Rightarrow> 'a io" where
  "io_ret x w = (Ret x, w)"

definition io_throw :: "error \<Rightarrow> 'a io" where
  "io_throw e w = (Throw e, w)"

definition io_exit :: "nat \<Rightarrow> 'a io" where
  "io_exit c w = (Exit c, w)"

text \<open>Sequencing (\<open>await m; f\<close>): a throw or an exit of \<open>m\<close> skips \<open>f\<close>.\<close>

definition io_bind :: "'a io \<Rightarrow> ('a \<Rightarrow> 'b io) \<Rightarrow> 'b io" where
  "io_bind m f w =
     (case m w of
        (Ret x, w') \<Rightarrow> f x w'
      | (Throw e, w') \<Rightarrow> (Throw e, w')
      | (Exit c, w') \<Rightarrow> (Exit c, w'))"

text \<open>\<open>try { m } catch (error) { h error }\<close>.\<close>

definition io_catch :: "'a io \<Rightarrow> (error \<Rightarrow> 'a io) \<Rightarrow> 'a io" where
  "io_catch m h w =
     (case m w of
        (Throw e, w') \<Rightarrow> h e w'
      | r \<Rightarrow> r)"

text \<open>
  \<open>try { m } finally { fin }\<close> with a \<open>finally\<close> block that only assigns: it runs
  after a return and after a throw, and not after \<open>process.exit\<close>.
\<close>

definition io_finally :: "'a io \<Rightarrow> (world \<Rightarrow> world) \<Rightarrow> 'a io" where
  "io_finally m fin w =
     (case m w of
        (Exit c, w') \<Rightarrow> (Exit c, w')
      | (r, w') \<Rightarrow> (r, fin w'))"

text \<open>A branch on the process state, and an assignment to it.\<close>

definition io_cond :: "(world \<Rightarrow> bool) \<Rightarrow> 'a io \<Rightarrow> 'a io \<Rightarrow> 'a io" where
  "io_cond p m m' w = (if p w then m w else m' w)"

definition io_modify :: "(world \<Rightarrow> world) \<Rightarrow> unit io" where
  "io_modify f w = (Ret (), f w)"

definition advance :: "world \<Rightarrow> world" where
  "advance w = w\<lparr>tick := Suc (tick w)\<rparr>"

subsection \<open>The document store\<close>

text \<open>\<open>TxHash.findOne({ txHash })\<close>: the document, or \<open>null\<close>.\<close>

definition findOne :: "env \<Rightarrow> string \<Rightarrow> tx_doc option io" where
  "findOne ev h w =
     (if db_fails ev (tick w) then (Throw StoreError, advance w)
      else (Ret (store w h), advance w))"

text \<open>
  \<open>tx.save()\<close> for the document \<open>tx\<close> whose \<open>txHash\<close> is \<open>h\<close>: inserts a new
  document or writes the changed paths of a loaded one. The process is the only writer,
  so the loaded document and the persisted one agree on the unchanged paths and the
  write is that of the whole document.
\<close>

definition save :: "env \<Rightarrow> string \<Rightarrow> tx_doc \<Rightarrow> unit io" where
  "save ev h tx w =
     (if db_fails ev (tick w) then (Throw StoreError, advance w)
      else (Ret (), advance (w\<lparr>store := (store w)(h \<mapsto> tx)\<rparr>)))"

text \<open>
  \<open>TxHash.updateOne({ txHash, state: { $ne: 'completed' } }, { state })\<close>: sets the
  state of the document with this hash unless its state is \<open>'completed'\<close>; no document
  matching is not an error.
\<close>

definition updateOne_unless_completed :: "env \<Rightarrow> string \<Rightarrow> string \<Rightarrow> unit io" where
  "updateOne_unless_completed ev h st w =
     (if db_fails ev (tick w) then (Throw StoreError, advance w)
      else (case store w h of
              None \<Rightarrow> (Ret (), advance w)
            | Some d \<Rightarrow>
                if state d \<noteq> ''completed''
                then (Ret (), advance (w\<lparr>store := (store w)(h \<mapsto> d\<lparr>state := st\<rparr>)\<rparr>))
                else (Ret (), advance w)))"

text \<open>
  \<open>new TxHash({ txHash, state, l1token, address, pid_1, pid_2, amount })\<close>, without
  the key \<open>txHash\<close>: the schema defaults give \<open>timestamp = Date.now()\<close> and
  \<open>retryCount = 0\<close>; \<open>nonce\<close> and \<open>lastRetryTime\<close> are not set.
\<close>

definition new_TxHash :: "env \<Rightarrow> string \<Rightarrow> topup_args \<Rightarrow> int \<Rightarrow> tx_doc io" where
  "new_TxHash ev st a amt w =
     (Ret \<lparr>state = st, timestamp = clock_now ev (tick w),
           l1token = arg_l1token a, address = arg_address a, nonce = None,
           pid_1 = arg_pid_1 a, pid_2 = arg_pid_2 a, amount = amt,
           retryCount = 0, lastRetryTime = None\<rparr>, w)"

text \<open>
  Reading \<open>tx.nonce\<close> goes through the schema getter
  \<open>function(value) { return BigInt.asUintN(64, value); }\<close>. The document library
  applies the getter to a path that is not set as well, and
  \<open>BigInt.asUintN(64, undefined)\<close> throws a \<open>TypeError\<close>: reading the nonce of a
  document that has none throws.
\<close>

definition read_nonce :: "tx_doc \<Rightarrow> int option io" where
  "read_nonce tx =
     (case nonce tx of
        Some v \<Rightarrow> io_ret (Some (asUintN64 v))
      | None \<Rightarrow> io_throw TypeError)"

subsection \<open>The L2 RPC client and the L1 contract\<close>

text \<open>
  \<open>admin.getNonce()\<close>, \<open>admin.checkDeposit(...)\<close>, \<open>admin.deposit(...)\<close> and
  \<open>proxyContract.allTokens()\<close>: each appends itself to the calls (the L2 calls only) and
  is answered by the environment. The hash given to \<open>deposit\<close> is that of the
  \<open>performDeposit\<close> that submits it; it is not sent, and selects the document recorded
  with the call.
\<close>

definition getNonce :: "env \<Rightarrow> int option io" where
  "getNonce ev w =
     (let w' = advance (w\<lparr>calls := calls w @ [CallGetNonce]\<rparr>) in
      case rpc_getNonce ev (tick w) of
        Resolved v \<Rightarrow> (Ret v, w')
      | Rejected e \<Rightarrow> (Throw e, w'))"

definition checkDeposit :: "env \<Rightarrow> int \<Rightarrow> int \<Rightarrow> int \<Rightarrow> int \<Rightarrow> int \<Rightarrow> string option io" where
  "checkDeposit ev n p1 p2 idx amt w =
     (let w' = advance (w\<lparr>calls := calls w @ [CallCheckDeposit n p1 p2 idx amt]\<rparr>) in
      case rpc_checkDeposit ev (tick w) of
        Resolved v \<Rightarrow> (Ret v, w')
      | Rejected e \<Rightarrow> (Throw e, w'))"

definition deposit :: "env \<Rightarrow> string \<Rightarrow> int \<Rightarrow> int \<Rightarrow> int \<Rightarrow> int \<Rightarrow> int \<Rightarrow> bool io" where
  "deposit ev h n p1 p2 idx amt w =
     (let w' = advance (w\<lparr>calls := calls w @ [CallDeposit n p1 p2 idx amt (store w h)]\<rparr>) in
      case rpc_deposit ev (tick w) of
        Resolved v \<Rightarrow> (Ret v, w')
      | Rejected e \<Rightarrow> (Throw e, w'))"

definition allTokens :: "env \<Rightarrow> string list io" where
  "allTokens ev w =
     (case contract_allTokens ev (tick w) of
        Resolved v \<Rightarrow> (Ret v, advance w)
      | Rejected e \<Rightarrow> (Throw e, advance w))"

subsection \<open>updateTxState and performDeposit\<close>

text \<open>
  \<^verbatim>\<open>
  try { await TxHash.updateOne({ txHash, state: { $ne: 'completed' } }, { state }); }
  catch (error) { console.error(...); }
  \<close>
\<close>

definition updateTxState :: "env \<Rightarrow> string \<Rightarrow> string \<Rightarrow> unit io" where
  "updateTxState ev h st =
     io_catch (updateOne_unless_completed ev h st) (\<lambda>e. io_ret ())"

text \<open>
  \<open>performDeposit\<close>. The reentrancy check precedes the \<open>try\<close>; inside it the flag is
  set, the document is read and a completed one ends the process; then the deposit is
  submitted. The \<open>catch\<close> block reads the document again, returns \<open>true\<close> when it is
  completed, and otherwise marks it failed and rethrows. The \<open>finally\<close> block clears the
  flag.
\<close>

definition performDeposit ::
  "env \<Rightarrow> string \<Rightarrow> int \<Rightarrow> int \<Rightarrow> int \<Rightarrow> int \<Rightarrow> int \<Rightarrow> bool io" where
  "performDeposit ev h n p1 p2 tokenIndex amountInEther =
     io_cond isProcessingDeposit (io_exit 1)
       (io_finally
          (io_catch
             (io_bind (io_modify (\<lambda>w. w\<lparr>isProcessingDeposit := True\<rparr>)) (\<lambda>_.
              io_bind (findOne ev h) (\<lambda>currentTx.
                if (case currentTx of Some d \<Rightarrow> state d = ''completed'' | None \<Rightarrow> False)
                then io_exit 1
                else
                  io_bind (deposit ev h n p1 p2 tokenIndex amountInEther) (\<lambda>depositResult.
                    if \<not> depositResult
                    then io_bind (updateTxState ev h ''failed'') (\<lambda>_. io_throw (DepositFailed h))
                    else io_bind (updateTxState ev h ''completed'') (\<lambda>_. io_ret True)))))
             (\<lambda>e.
                io_bind (findOne ev h) (\<lambda>latestTx.
                  if (case latestTx of Some d \<Rightarrow> state d = ''completed'' | None \<Rightarrow> False)
                  then io_ret True
                  else io_bind (updateTxState ev h ''failed'') (\<lambda>_. io_throw e))))
          (\<lambda>w. w\<lparr>isProcessingDeposit := False\<rparr>))"

subsection \<open>processTopUpEvent\<close>

text \<open>
  \<^verbatim>\<open>
  let tokenindex = null;
  for (let i = 0; i < tokens.length; i++) {
    if (l1token === tokens[i].token_uid) { tokenindex = BigInt(i); break; }
  }
  \<close>
  \<open>getTokenIndex_from i\<close> is the loop entered at index \<open>i\<close> with the tokens that remain.
\<close>

fun getTokenIndex_from :: "nat \<Rightarrow> string \<Rightarrow> string list \<Rightarrow> int option" where
  "getTokenIndex_from i l1 [] = None"
| "getTokenIndex_from i l1 (t # ts) =
     (if l1 = t then Some (int i) else getTokenIndex_from (Suc i) l1 ts)"

definition getTokenIndex :: "string \<Rightarrow> string list \<Rightarrow> int option" where
  "getTokenIndex l1 tokens = getTokenIndex_from 0 l1 tokens"

text \<open>\<open>new Date()\<close>.\<close>

definition date_now :: "env \<Rightarrow> nat io" where
  "date_now ev w = (Ret (clock_now ev (tick w)), w)"

text \<open>
  The block that fetches and stores a nonce (the same on the new and on the pending
  path); it yields the nonce it stored.
  \<^verbatim>\<open>
  try {
    const nonce = await this.admin.getNonce();
    if (nonce === null) { process.exit(1); }
    tx.nonce = nonce;
    await tx.save();
  } catch (error) { throw error; }
  \<close>
\<close>

definition assignNonce :: "env \<Rightarrow> string \<Rightarrow> tx_doc \<Rightarrow> int io" where
  "assignNonce ev h tx =
     io_catch
       (io_bind (getNonce ev) (\<lambda>n.
          case n of
            None \<Rightarrow> io_exit 1
          | Some v \<Rightarrow> io_bind (save ev h (tx\<lparr>nonce := Some v\<rparr>)) (\<lambda>_. io_ret v)))
       io_throw"

text \<open>
  The block that marks the document in progress and submits the deposit (the same on
  the new and on the pending path). \<open>tx\<close> is the document with the nonce \<open>v\<close> assigned
  by the block above, so that \<open>tx.nonce\<close> reads \<open>asUintN64 v\<close>.
  \<^verbatim>\<open>
  try {
    tx.state = 'in-progress';
    await tx.save();
    await this.performDeposit(event.transactionHash, tx.nonce, pid_1, pid_2, tokenindex, amountInEther);
  } catch (error) {
    await this.updateTxState(event.transactionHash, 'failed');
    throw error;
  }
  \<close>
\<close>

definition submitInProgress ::
  "env \<Rightarrow> event_log \<Rightarrow> tx_doc \<Rightarrow> int \<Rightarrow> topup_args \<Rightarrow> int \<Rightarrow> int \<Rightarrow> unit io" where
  "submitInProgress ev event tx v a tokenindex amountInEther =
     io_catch
       (io_bind (save ev (transactionHash event) (tx\<lparr>state := ''in-progress''\<rparr>)) (\<lambda>_.
        io_bind (performDeposit ev (transactionHash event) (asUintN64 v)
                   (arg_pid_1 a) (arg_pid_2 a) tokenindex amountInEther) (\<lambda>_.
        io_ret ())))
       (\<lambda>e. io_bind (updateTxState ev (transactionHash event) ''failed'') (\<lambda>_. io_throw e))"

text \<open>The branch \<open>if (!tx)\<close>: no document is tracked for the hash.\<close>

definition processUntracked ::
  "env \<Rightarrow> event_log \<Rightarrow> topup_args \<Rightarrow> int \<Rightarrow> int \<Rightarrow> unit io" where
  "processUntracked ev event a tokenindex amountInEther =
     (if amountInEther < 1
      then
        io_bind (new_TxHash ev ''completed'' a amountInEther) (\<lambda>tx.
        io_bind (save ev (transactionHash event) tx) (\<lambda>_. io_ret ()))
      else
        io_bind (new_TxHash ev ''pending'' a amountInEther) (\<lambda>tx.
        io_bind (save ev (transactionHash event) tx) (\<lambda>_.
        io_bind (assignNonce ev (transactionHash event) tx) (\<lambda>v.
        submitInProgress ev event (tx\<lparr>nonce := Some v\<rparr>) v a tokenindex amountInEther))))"

text \<open>The branch \<open>tx.state === 'pending'\<close>.\<close>

definition processPending ::
  "env \<Rightarrow> event_log \<Rightarrow> tx_doc \<Rightarrow> topup_args \<Rightarrow> int \<Rightarrow> int \<Rightarrow> unit io" where
  "processPending ev event tx a tokenindex amountInEther =
     io_catch
       (io_bind (assignNonce ev (transactionHash event) tx) (\<lambda>v.
          if amountInEther < 1
          then updateTxState ev (transactionHash event) ''completed''
          else submitInProgress ev event (tx\<lparr>nonce := Some v\<rparr>) v a tokenindex amountInEther))
       io_throw"

text \<open>
  The branch \<open>tx.state === 'in-progress' || tx.state === 'failed'\<close>.
  \<^verbatim>\<open>
  try {
    if (tx.nonce != null) {
      const checkResult = await this.admin.checkDeposit(tx.nonce, pid_1, pid_2, tokenindex, amountInEther);
      if (checkResult.data != null) {
        await this.updateTxState(event.transactionHash, 'completed');
        return;
      } else {
        tx.retryCount += 1;
        tx.lastRetryTime = new Date();
        const newNonce = await this.admin.getNonce();
        if (newNonce === null) { process.exit(1); }
        tx.nonce = newNonce;
        await tx.save();
        await this.performDeposit(event.transactionHash, tx.nonce, pid_1, pid_2, tokenindex, amountInEther);
      }
    } else { process.exit(1); }
  } catch (error) { throw error; }
  \<close>
  The \<open>else\<close> branch is kept as it is written; the read of \<open>tx.nonce\<close> in the
  condition comes before it.
\<close>

definition processRetry ::
  "env \<Rightarrow> event_log \<Rightarrow> tx_doc \<Rightarrow> topup_args \<Rightarrow> int \<Rightarrow> int \<Rightarrow> unit io" where
  "processRetry ev event tx a tokenindex amountInEther =
     io_catch
       (io_bind (read_nonce tx) (\<lambda>n.
          case n of
            Some n0 \<Rightarrow>
              io_bind (checkDeposit ev n0 (arg_pid_1 a) (arg_pid_2 a) tokenindex amountInEther)
                (\<lambda>checkResult_data.
                  case checkResult_data of
                    Some _ \<Rightarrow> updateTxState ev (transactionHash event) ''completed''
                  | None \<Rightarrow>
                      io_bind (date_now ev) (\<lambda>now.
                      io_bind (getNonce ev) (\<lambda>newNonce.
                        case newNonce of
                          None \<Rightarrow> io_exit 1
                        | Some v \<Rightarrow>
                            io_bind (save ev (transactionHash event)
                                       (tx\<lparr>retryCount := retryCount tx + 1,
                                           lastRetryTime := Some now,
                                           nonce := Some v\<rparr>)) (\<lambda>_.
                            io_bind (performDeposit ev (transactionHash event) (asUintN64 v)
                                       (arg_pid_1 a) (arg_pid_2 a) tokenindex amountInEther) (\<lambda>_.
                            io_ret ())))))
          | None \<Rightarrow> io_exit 1))
       io_throw"

text \<open>The branch \<open>else { // tx is tracked\<close>: the dispatch on the persisted state.\<close>

definition processTracked ::
  "env \<Rightarrow> event_log \<Rightarrow> tx_doc \<Rightarrow> topup_args \<Rightarrow> int \<Rightarrow> int \<Rightarrow> unit io" where
  "processTracked ev event tx a tokenindex amountInEther =
     (if state tx = ''completed'' then io_ret ()
      else if state tx = ''pending'' then processPending ev event tx a tokenindex amountInEther
      else if state tx = ''in-progress'' \<or> state tx = ''failed''
        then processRetry ev event tx a tokenindex amountInEther
      else io_exit 1)"

text \<open>
  \<open>processTopUpEvent\<close>: decode the log, resolve the token index (an unknown token
  is skipped), convert the amount, look the hash up and dispatch. The outer
  \<open>catch (error) { throw error; }\<close> rethrows.
\<close>

definition processTopUpEvent :: "env \<Rightarrow> event_log \<Rightarrow> unit io" where
  "processTopUpEvent ev event =
     io_catch
       (case parsed event of
          None \<Rightarrow> io_throw DecodeFailed
        | Some a \<Rightarrow>
            io_bind (allTokens ev) (\<lambda>tokens.
              case getTokenIndex (arg_l1token a) tokens of
                None \<Rightarrow> io_ret ()
              | Some tokenindex \<Rightarrow>
                  (let amountInEther = bigint_div (arg_amount a) WEI_PER_ETHER in
                   io_bind (findOne ev (transactionHash event)) (\<lambda>tx.
                     case tx of
                       None \<Rightarrow> processUntracked ev event a tokenindex amountInEther
                     | Some d \<Rightarrow> processTracked ev event d a tokenindex amountInEther))))
       io_throw"

subsection \<open>Proof instances: extractMerkleRoot, extractNewMerkleRoot, extractShaHash\<close>

text \<open>
  The functions use the arbitrary-precision integers of the library \<open>bn.js\<close>, which
  is a dependency and not part of the repository. The model covers what the three
  functions use of it:
  \<^item> \<open>new BN(s, 10)\<close> on a string of decimal digits is the number the digits denote.
    What the library does with any other string (a sign, white space, letters) is not
    modelled: \<open>BN_decimal\<close> answers \<open>None\<close> there and the extraction reports
    \<open>NotDecimal\<close>;
  \<^item> \<open>x.shln(n)\<close> is \<open>push_bit n x\<close> and \<open>x.add(y)\<close> is \<open>x + y\<close>, on \<open>nat\<close>;
  \<^item> \<open>x.toString('hex', padding)\<close> is the hexadecimal numeral of \<open>x\<close> in lower case
    without leading zeros (\<open>0\<close> for zero), then
    \<^verbatim>\<open>while (out.length % padding !== 0) { out = '0' + out; }\<close>
    (the library replaces a padding of 0 by 1, for which the loop does nothing).
\<close>

definition digit_value :: "char \<Rightarrow> nat option" where
  "digit_value c =
     (if 48 \<le> (of_char c :: nat) \<and> (of_char c :: nat) \<le> 57
      then Some (of_char c - 48) else None)"

fun parse_decimal :: "nat \<Rightarrow> string \<Rightarrow> nat option" where
  "parse_decimal acc [] = Some acc"
| "parse_decimal acc (c # cs) =
     (case digit_value c of
        None \<Rightarrow> None
      | Some d \<Rightarrow> parse_decimal (acc * 10 + d) cs)"

definition BN_decimal :: "string \<Rightarrow> nat option" where
  "BN_decimal s = parse_decimal 0 s"

definition hex_char :: "nat \<Rightarrow> char" where
  "hex_char d = ''0123456789abcdef'' ! d"

fun hex_digits :: "nat \<Rightarrow> string" where
  "hex_digits n =
     (if n < 16 then [hex_char n] else hex_digits (n div 16) @ [hex_char (n mod 16)])"

declare hex_digits.simps [simp del]

function zero_pad :: "nat \<Rightarrow> string \<Rightarrow> string" where
  "zero_pad padding out =
     (if 0 < padding \<and> length out mod padding \<noteq> 0
      then zero_pad padding (CHR ''0'' # out)
      else out)"
  by pat_completeness auto
termination
proof (relation "measure (\<lambda>(padding, out). (padding - length out mod padding) mod padding)")
  show "wf (measure (\<lambda>(padding, out). (padding - length out mod padding) mod padding))"
    by simp
next
  fix padding :: nat and out :: string
  assume a: "0 < padding \<and> length out mod padding \<noteq> 0"
  let ?m = "length out mod padding"
  have lt: "?m < padding"
    using a by simp
  have next_mod: "length (CHR ''0'' # out) mod padding = (if Suc ?m = padding then 0 else Suc ?m)"
    using a by (simp add: mod_Suc)
  have "(padding - length (CHR ''0'' # out) mod padding) mod padding
      < (padding - ?m) mod padding"
    unfolding next_mod using a lt by (auto simp: mod_less)
  then show "((padding, CHR ''0'' # out), (padding, out))
      \<in> measure (\<lambda>(padding, out). (padding - length out mod padding) mod padding)"
    by simp
qed

declare zero_pad.simps [simp del]

definition BN_toString_hex :: "nat \<Rightarrow> nat \<Rightarrow> string" where
  "BN_toString_hex padding x = zero_pad padding (hex_digits x)"

text \<open>The interface \<open>ProofArgs\<close>; \<open>txData\<close> is a \<open>Uint8Array\<close>.\<close>

record ProofArgs =
  txData :: "8 word list"
  proofArr :: "string list"
  verifyInstanceArr :: "string list"
  auxArr :: "string list"
  instArr :: "string list"

datatype extract_error =
    InstArrTooShort nat \<comment> \<open>\<open>new Error('instArr must have at least n elements ...')\<close>\<close>
  | NotDecimal \<comment> \<open>an element that is no string of decimal digits: outside the model\<close>

text \<open>
  The body shared by the three functions after their length check: four elements from
  the index \<open>i\<close> are read as decimal numbers, combined as
  \<open>a.shln(192).add(b.shln(128)).add(c.shln(64)).add(d)\<close>, and printed as
  \<open>'0x' + x.toString('hex', 64)\<close>.
\<close>

definition pack_limbs :: "string list \<Rightarrow> nat \<Rightarrow> extract_error + string" where
  "pack_limbs arr i =
     (case (BN_decimal (arr ! i), BN_decimal (arr ! (i + 1)),
            BN_decimal (arr ! (i + 2)), BN_decimal (arr ! (i + 3))) of
        (Some a, Some b, Some c, Some d) \<Rightarrow>
          Inr (''0x'' @ BN_toString_hex 64 (push_bit 192 a + push_bit 128 b + push_bit 64 c + d))
      | _ \<Rightarrow> Inl NotDecimal)"

definition extractMerkleRoot :: "ProofArgs \<Rightarrow> extract_error + string" where
  "extractMerkleRoot attributes =
     (if length (instArr attributes) < 4 then Inl (InstArrTooShort 4)
      else pack_limbs (instArr attributes) 0)"

definition extractNewMerkleRoot :: "ProofArgs \<Rightarrow> extract_error + string" where
  "extractNewMerkleRoot attributes =
     (if length (instArr attributes) < 8 then Inl (InstArrTooShort 8)
      else pack_limbs (instArr attributes) 4)"

definition extractShaHash :: "ProofArgs \<Rightarrow> extract_error + string" where
  "extractShaHash attributes =
     (if length (instArr attributes) < 12 then Inl (InstArrTooShort 12)
      else pack_limbs (instArr attributes) 8)"

text \<open>
  The words of the specification: a string is the decimal numeral of a value when it is
  a non-empty string of decimal digits that denotes the value, and the serialization of a
  value is its big-endian hexadecimal expansion to a fixed number of digits.
\<close>

definition decimal_of :: "string \<Rightarrow> nat \<Rightarrow> bool" where
  "decimal_of s v =
     (s \<noteq> [] \<and> list_all (\<lambda>c. 48 \<le> (of_char c :: nat) \<and> (of_char c :: nat) \<le> 57) s
      \<and> foldl (\<lambda>acc c. acc * 10 + (of_char c - 48)) 0 s = v)"

fun hex_fixed :: "nat \<Rightarrow> nat \<Rightarrow> string" where
  "hex_fixed 0 v = []"
| "hex_fixed (Suc k) v = hex_fixed k (v div 16) @ [hex_char (v mod 16)]"

text \<open>The instance array of \<open>demonstrateExtraction\<close> (the extraction reads no other field).\<close>

definition demo_attributes :: ProofArgs where
  "demo_attributes =
     \<lparr>txData = [0], proofArr = [], verifyInstanceArr = [], auxArr = [''1''],
      instArr = [''910400006888094404'', ''18142358643817710901'', ''11743083299358509370'',
                 ''557062474596129021'', ''15610985209716397462'', ''14566187743782344128'',
                 ''5237131197396905609'', ''288166984414608746'', ''16406829232824261652'',
                 ''11167788843400149284'', ''2859295262623109964'', ''11859553537011923029'']\<rparr>"


subsection \<open>The historical sweep\<close>

text \<open>
  \<open>getHistoricalTopUpEvents\<close> computes the ranges it queries with \<open>getLogs\<close> from the
  latest block and the configured start block alone: an error inside a batch is caught
  and the loop continues with the next batch.
  \<^verbatim>\<open>
  const batchSize = 25000;
  const totalBlocksToScan = 200000;
  for (let fromBlock = startBlock; fromBlock < latestBlock; fromBlock += batchSize) {
    const toBlock = Math.min(fromBlock + batchSize - 1, latestBlock);
    ... getLogs({ ..., fromBlock, toBlock }) ...
  }
  \<close>
  \<open>scanBatches fromBlock latestBlock\<close> is the list of the pairs
  \<open>(fromBlock, toBlock)\<close> of the iterations of the loop entered at \<open>fromBlock\<close>.
  Block numbers are \<open>int\<close>: they are integers that a JavaScript number holds exactly.
\<close>

definition batchSize :: int where
  "batchSize = 25000"

definition totalBlocksToScan :: int where
  "totalBlocksToScan = 200000"

function scanBatches :: "int \<Rightarrow> int \<Rightarrow> (int \<times> int) list" where
  "scanBatches fromBlock latestBlock =
     (if fromBlock < latestBlock
      then (fromBlock, min (fromBlock + batchSize - 1) latestBlock)
             # scanBatches (fromBlock + batchSize) latestBlock
      else [])"
  by pat_completeness auto
termination
  by (relation "measure (\<lambda>(fromBlock, latestBlock). nat (latestBlock - fromBlock))")
     (auto simp: batchSize_def)

text \<open>
  The ranges queried by the sweep for the configured start block (\<open>None\<close> when
  \<open>config.startBlock\<close> is undefined) and the latest block; the result \<open>None\<close> is the
  early return that skips the historical processing.
  \<^verbatim>\<open>
  if (this.config.startBlock !== undefined) {
    if (this.config.startBlock > latestBlock) { return; }
    startBlock = this.config.startBlock;
  } else {
    startBlock = Math.max(0, latestBlock - totalBlocksToScan);
  }
  \<close>
\<close>

definition historicalRanges :: "int option \<Rightarrow> int \<Rightarrow> (int \<times> int) list option" where
  "historicalRanges configStartBlock latestBlock =
     (case configStartBlock of
        Some s \<Rightarrow> if s > latestBlock then None else Some (scanBatches s latestBlock)
      | None \<Rightarrow> Some (scanBatches (max 0 (latestBlock - totalBlocksToScan)) latestBlock))"

text \<open>
  The tail poll of \<open>serve\<close> walks its range with the bound \<open>fromBlock <= currentBlock\<close>:
  \<^verbatim>\<open>
  for (let fromBlock = lastProcessedBlock + 1; fromBlock <= currentBlock; fromBlock += maxBatchSize) {
    const toBlock = Math.min(fromBlock + maxBatchSize - 1, currentBlock);
  \<close>
\<close>

function pollBatches :: "int \<Rightarrow> int \<Rightarrow> (int \<times> int) list" where
  "pollBatches fromBlock currentBlock =
     (if fromBlock \<le> currentBlock
      then (fromBlock, min (fromBlock + batchSize - 1) currentBlock)
             # pollBatches (fromBlock + batchSize) currentBlock
      else [])"
  by pat_completeness auto
termination
  by (relation "measure (\<lambda>(fromBlock, currentBlock). nat (currentBlock + 1 - fromBlock))")
     (auto simp: batchSize_def)

text \<open>Whether a block lies in one of the queried ranges.\<close>

definition scanned :: "int \<Rightarrow> (int \<times> int) list \<Rightarrow> bool" where
  "scanned b rs = list_ex (\<lambda>(lo, hi). lo \<le> b \<and> b \<le> hi) rs"

subsection \<open>The loops over the logs of a range\<close>



subsection \<open>Sample inputs\<close>

text \<open>
  A well-behaved environment (one known token, every call answered, the store never
  failing), an empty process state, and a decoded \<open>TopUp\<close> event of two ether.
\<close>

definition env_ok :: env where
  "env_ok = \<lparr>contract_allTokens = (\<lambda>_. Resolved [''0xT0'', ''0xT1'']),
             rpc_getNonce = (\<lambda>_. Resolved (Some 7)),
             rpc_checkDeposit = (\<lambda>_. Resolved None),
             rpc_deposit = (\<lambda>_. Resolved True),
             db_fails = (\<lambda>_. False),
             clock_now = (\<lambda>t. 1000 + t)\<rparr>"

definition world0 :: world where
  "world0 = \<lparr>store = Map.empty, isProcessingDeposit = False, tick = 0, calls = []\<rparr>"

definition args0 :: topup_args where
  "args0 = \<lparr>arg_l1token = ''0xT1'', arg_address = ''0xU'', arg_pid_1 = 1, arg_pid_2 = 2,
            arg_amount = 2 * 10 ^ 18\<rparr>"

definition event0 :: event_log where
  "event0 = \<lparr>transactionHash = ''0xaa'', parsed = Some args0\<rparr>"

text \<open>A tracked document for \<open>event0\<close> in a given state, with the nonce 5 assigned.\<close>

definition doc0 :: "string \<Rightarrow> tx_doc" where
  "doc0 st = \<lparr>state = st, timestamp = 900, l1token = ''0xT1'', address = ''0xU'',
              nonce = Some 5, pid_1 = 1, pid_2 = 2, amount = 2, retryCount = 0,
              lastRetryTime = None\<rparr>"

definition world_with :: "tx_doc \<Rightarrow> world" where
  "world_with d = world0\<lparr>store := [''0xaa'' \<mapsto> d]\<rparr>"


subsection \<open>Relations kept by every step\<close>

text \<open>
  \<open>preserves R m\<close>: the state in which \<open>m\<close> ends (returning, throwing or exiting) is
  related by \<open>R\<close> to the state in which it starts. The relations used are
  \<open>calls_extend\<close> (L2 calls are only ever appended), \<open>same_off h\<close> (no document
  other than that of the hash \<open>h\<close> is written) and \<open>keeps_doc h d\<close>.
\<close>

definition preserves :: "(world \<Rightarrow> world \<Rightarrow> bool) \<Rightarrow> 'a io \<Rightarrow> bool" where
  "preserves R m = (\<forall>w. R w (snd (m w)))"

definition calls_extend :: "world \<Rightarrow> world \<Rightarrow> bool" where
  "calls_extend w w' = (\<exists>ext. calls w' = calls w @ ext)"

definition same_off :: "string \<Rightarrow> world \<Rightarrow> world \<Rightarrow> bool" where
  "same_off h w w' = (\<forall>k. k \<noteq> h \<longrightarrow> store w' k = store w k)"


subsection \<open>The fatal invariant violations the specification lists\<close>




subsection \<open>What is durable when a deposit is submitted\<close>

text \<open>
  \<open>durable_before c\<close>: when \<open>c\<close> is a deposit submission, the store held, as it was
  issued, a document for its hash whose nonce is set and is the nonce submitted, in state
  \<open>'in-progress'\<close> or \<open>'failed'\<close>. \<open>deposits_durable\<close>: this holds of every L2 call
  appended by a step.
\<close>

definition durable_before :: "l2_call \<Rightarrow> bool" where
  "durable_before c =
     (case c of
        CallDeposit n p1 p2 idx amt persisted \<Rightarrow>
          (case persisted of
             None \<Rightarrow> False
           | Some d \<Rightarrow>
               map_option asUintN64 (nonce d) = Some n
               \<and> (state d = ''in-progress'' \<or> state d = ''failed''))
      | _ \<Rightarrow> True)"

definition deposits_durable :: "world \<Rightarrow> world \<Rightarrow> bool" where
  "deposits_durable w w' = (\<exists>ext. calls w' = calls w @ ext \<and> list_all durable_before ext)"


section \<open>Properties\<close>

subsection \<open>Unfolding the model\<close>

lemmas io_defs =
  io_ret_def io_throw_def io_exit_def io_bind_def io_catch_def io_finally_def io_cond_def
  io_modify_def advance_def

lemmas store_defs =
  findOne_def save_def updateOne_unless_completed_def new_TxHash_def read_nonce_def date_now_def

lemmas rpc_defs = getNonce_def checkDeposit_def deposit_def allTokens_def

lemmas proc_defs =
  processTopUpEvent_def processTracked_def processRetry_def processPending_def
  processUntracked_def submitInProgress_def assignNonce_def performDeposit_def updateTxState_def

lemmas sample_defs = env_ok_def world0_def args0_def event0_def doc0_def world_with_def

declare scanBatches.simps [simp del] pollBatches.simps [simp del]

lemma tick_numerals:
  fixes n :: nat
  shows "n + 3 = Suc (Suc (Suc n))" "n + 4 = Suc (Suc (Suc (Suc n)))"
    "n + 5 = Suc (Suc (Suc (Suc (Suc n))))" "n + 6 = Suc (Suc (Suc (Suc (Suc (Suc n)))))"
    "n + 7 = Suc (Suc (Suc (Suc (Suc (Suc (Suc n))))))"
    "n + 8 = Suc (Suc (Suc (Suc (Suc (Suc (Suc (Suc n)))))))"
  by simp_all

text \<open>A handler that rethrows handles nothing.\<close>

lemma io_catch_rethrow: "io_catch m io_throw = m"
  by (rule ext) (simp add: io_catch_def io_throw_def split: prod.splits outcome.splits)

text \<open>A save that returns has written the document.\<close>

lemma save_Ret:
  "save ev h tx w = (Ret x, w') \<Longrightarrow>
     w' = w\<lparr>tick := tick w + 1, store := (store w)(h \<mapsto> tx)\<rparr>"
  by (auto simp: save_def advance_def split: if_splits)


subsection \<open>Rules for relations kept by every step\<close>

lemma preserves_ret: "reflp R \<Longrightarrow> preserves R (io_ret x)"
  by (simp add: preserves_def io_ret_def reflp_def)

lemma preserves_throw: "reflp R \<Longrightarrow> preserves R (io_throw e)"
  by (simp add: preserves_def io_throw_def reflp_def)

lemma preserves_exit: "reflp R \<Longrightarrow> preserves R (io_exit c)"
  by (simp add: preserves_def io_exit_def reflp_def)

lemma preserves_bind:
  assumes "transp R" and "preserves R m" and "\<And>x. preserves R (f x)"
  shows "preserves R (io_bind m f)"
  unfolding preserves_def
proof
  fix w
  obtain r w' where mw: "m w = (r, w')"
    by (cases "m w")
  have step: "R w w'"
    using assms(2) mw by (auto simp: preserves_def dest: spec [of _ w])
  show "R w (snd (io_bind m f w))"
  proof (cases r)
    case (Ret x)
    have "R w' (snd (f x w'))"
      using assms(3) by (simp add: preserves_def)
    with step assms(1) have "R w (snd (f x w'))"
      by (meson transpD)
    then show ?thesis
      using mw Ret by (simp add: io_bind_def)
  next
    case (Throw e)
    then show ?thesis
      using mw step by (simp add: io_bind_def)
  next
    case (Exit c)
    then show ?thesis
      using mw step by (simp add: io_bind_def)
  qed
qed

lemma preserves_catch:
  assumes "transp R" and "preserves R m" and "\<And>e. preserves R (h e)"
  shows "preserves R (io_catch m h)"
  unfolding preserves_def
proof
  fix w
  obtain r w' where mw: "m w = (r, w')"
    by (cases "m w")
  have step: "R w w'"
    using assms(2) mw by (auto simp: preserves_def dest: spec [of _ w])
  show "R w (snd (io_catch m h w))"
  proof (cases r)
    case (Throw e)
    have "R w' (snd (h e w'))"
      using assms(3) by (simp add: preserves_def)
    with step assms(1) have "R w (snd (h e w'))"
      by (meson transpD)
    then show ?thesis
      using mw Throw by (simp add: io_catch_def)
  next
    case (Ret x)
    then show ?thesis
      using mw step by (simp add: io_catch_def)
  next
    case (Exit c)
    then show ?thesis
      using mw step by (simp add: io_catch_def)
  qed
qed

lemma preserves_finally:
  assumes "transp R" and "preserves R m" and "\<And>w. R w (fin w)"
  shows "preserves R (io_finally m fin)"
  unfolding preserves_def
proof
  fix w
  obtain r w' where mw: "m w = (r, w')"
    by (cases "m w")
  have step: "R w w'"
    using assms(2) mw by (auto simp: preserves_def dest: spec [of _ w])
  then have "R w (fin w')"
    using assms(1,3) by (meson transpD)
  with step show "R w (snd (io_finally m fin w))"
    using mw by (cases r) (simp_all add: io_finally_def)
qed

lemma preserves_cond:
  "preserves R m \<Longrightarrow> preserves R m' \<Longrightarrow> preserves R (io_cond p m m')"
  by (simp add: preserves_def io_cond_def)

lemma preserves_modify: "(\<And>w. R w (f w)) \<Longrightarrow> preserves R (io_modify f)"
  by (simp add: preserves_def io_modify_def)

lemma preserves_if:
  "(c \<Longrightarrow> preserves R m) \<Longrightarrow> (\<not> c \<Longrightarrow> preserves R m') \<Longrightarrow> preserves R (if c then m else m')"
  by simp

lemma preserves_case_option:
  "(x = None \<Longrightarrow> preserves R m) \<Longrightarrow> (\<And>y. x = Some y \<Longrightarrow> preserves R (f y))
   \<Longrightarrow> preserves R (case x of None \<Rightarrow> m | Some y \<Rightarrow> f y)"
  by (cases x) simp_all

lemma reflp_calls_extend: "reflp calls_extend"
  by (simp add: reflp_def calls_extend_def)

lemma transp_calls_extend: "transp calls_extend"
  by (auto simp: transp_def calls_extend_def)

lemma reflp_same_off: "reflp (same_off h)"
  by (simp add: reflp_def same_off_def)

lemma transp_same_off: "transp (same_off h)"
  by (auto simp: transp_def same_off_def)

lemma calls_extend_prims:
  "preserves calls_extend (findOne ev h)"
  "preserves calls_extend (save ev h tx)"
  "preserves calls_extend (updateOne_unless_completed ev h st)"
  "preserves calls_extend (new_TxHash ev st a amt)"
  "preserves calls_extend (read_nonce tx)"
  "preserves calls_extend (date_now ev)"
  "preserves calls_extend (getNonce ev)"
  "preserves calls_extend (checkDeposit ev n p1 p2 idx amt)"
  "preserves calls_extend (deposit ev h n p1 p2 idx amt)"
  "preserves calls_extend (allTokens ev)"
  "preserves calls_extend (io_modify (\<lambda>w. w\<lparr>isProcessingDeposit := b\<rparr>))"
  by (simp_all add: preserves_def calls_extend_def io_defs store_defs rpc_defs Let_def
        split: option.splits resp.splits)

lemma same_off_prims:
  "preserves (same_off h) (findOne ev k)"
  "preserves (same_off h) (save ev h tx)"
  "preserves (same_off h) (updateOne_unless_completed ev h st)"
  "preserves (same_off h) (new_TxHash ev st a amt)"
  "preserves (same_off h) (read_nonce tx)"
  "preserves (same_off h) (date_now ev)"
  "preserves (same_off h) (getNonce ev)"
  "preserves (same_off h) (checkDeposit ev n p1 p2 idx amt)"
  "preserves (same_off h) (deposit ev k n p1 p2 idx amt)"
  "preserves (same_off h) (allTokens ev)"
  "preserves (same_off h) (io_modify (\<lambda>w. w\<lparr>isProcessingDeposit := b\<rparr>))"
  by (simp_all add: preserves_def same_off_def io_defs store_defs rpc_defs Let_def
        split: option.splits resp.splits)

lemmas preserves_calls =
  preserves_bind [OF transp_calls_extend] preserves_catch [OF transp_calls_extend]
  preserves_finally [OF transp_calls_extend] preserves_cond preserves_if preserves_case_option
  preserves_ret [OF reflp_calls_extend] preserves_throw [OF reflp_calls_extend]
  preserves_exit [OF reflp_calls_extend] calls_extend_prims

lemmas preserves_store =
  preserves_bind [OF transp_same_off] preserves_catch [OF transp_same_off]
  preserves_finally [OF transp_same_off] preserves_cond preserves_if preserves_case_option
  preserves_ret [OF reflp_same_off] preserves_throw [OF reflp_same_off]
  preserves_exit [OF reflp_same_off] same_off_prims

lemma calls_extend_updateTxState: "preserves calls_extend (updateTxState ev h st)"
  unfolding updateTxState_def by (intro preserves_calls)

lemma same_off_updateTxState: "preserves (same_off h) (updateTxState ev h st)"
  unfolding updateTxState_def by (intro preserves_store)

lemma calls_extend_performDeposit:
  "preserves calls_extend (performDeposit ev h n p1 p2 idx amt)"
  unfolding performDeposit_def updateTxState_def
  by (intro preserves_calls) (simp add: calls_extend_def)


lemma calls_extend_processTopUpEvent:
  "preserves calls_extend (processTopUpEvent ev event)"
  unfolding processTopUpEvent_def processTracked_def processRetry_def processPending_def
    processUntracked_def submitInProgress_def assignNonce_def updateTxState_def Let_def
  by (intro preserves_calls calls_extend_performDeposit)



subsection \<open>The command word of createCommand\<close>

lemma low_bits_disjoint:
  fixes n x :: int
  assumes "0 \<le> x" and "x < 2 ^ k"
  shows "push_bit k n + x = push_bit k n OR x"
proof (rule disjunctive_add)
  fix i
  have "take_bit k x = x"
    using assms by (simp add: take_bit_int_eq_self)
  then have "bit x i \<Longrightarrow> i < k"
    by (metis bit_take_bit_iff)
  then show "\<not> bit (push_bit k n) i \<or> \<not> bit x i"
    by (auto simp: bit_push_bit_iff)
qed

lemma cmd_word_or:
  fixes nc opc l :: int
  assumes "0 \<le> opc" and "opc < 2 ^ 8" and "0 \<le> l" and "l < 2 ^ 8"
  shows "push_bit 16 nc + push_bit 8 l + opc = push_bit 16 nc OR push_bit 8 l OR opc"
proof -
  have low: "push_bit 8 l + opc = push_bit 8 l OR opc"
    using assms by (intro low_bits_disjoint) auto
  have "0 \<le> push_bit 8 l + opc"
    using assms by (simp add: push_bit_eq_mult)
  moreover have "push_bit 8 l + opc < 2 ^ 16"
    using assms by (simp add: push_bit_eq_mult)
  ultimately have "push_bit 16 nc + (push_bit 8 l + opc)
      = push_bit 16 nc OR (push_bit 8 l + opc)"
    by (intro low_bits_disjoint) auto
  then show ?thesis
    using low by (simp add: add.assoc or.assoc)
qed

lemma cmd_word_fits:
  fixes nc opc l :: int
  assumes "0 \<le> nc" and "nc < 2 ^ 48" and "0 \<le> opc" and "opc < 2 ^ 8"
    and "0 \<le> l" and "l < 2 ^ 8"
  shows "0 \<le> push_bit 16 nc + push_bit 8 l + opc
       \<and> push_bit 16 nc + push_bit 8 l + opc < 2 ^ 64"
  using assms by (simp add: push_bit_eq_mult)

lemma uint_words_in_range:
  assumes "\<forall>p \<in> set ps. 0 \<le> p \<and> p < 2 ^ 64"
  shows "map uint (map word_of_int ps :: 64 word list) = ps"
  using assms
  by (induction ps) (simp_all add: uint_word_of_int take_bit_int_eq_self flip: take_bit_eq_mod)

text \<open>
  Claim C7. For a nonce below \<open>2^48\<close>, an opcode below \<open>2^8\<close> (both unsigned) and
  a parameter list with \<open>length + 1 < 2^8\<close>, the buffer of \<open>createCommand\<close> is the command
  word followed by the parameters in order, and the command word, read as an unsigned
  integer, is \<open>(nonce << 16) | ((len + 1) << 8) | opcode\<close>: nothing wraps. Each further
  word is the parameter at that position as a 64-bit word, which is the parameter itself
  when it is in the range of a \<open>u64\<close>.
\<close>

theorem createCommand_first_word:
  assumes "0 \<le> nc" and "nc < 2 ^ 48" and "0 \<le> opc" and "opc < 2 ^ 8"
    and "length ps + 1 < 2 ^ 8"
  shows "createCommand nc opc ps
           = word_of_int (push_bit 16 nc OR push_bit 8 (int (length ps + 1)) OR opc)
               # map word_of_int ps
     \<and> uint (hd (createCommand nc opc ps))
           = push_bit 16 nc OR push_bit 8 (int (length ps + 1)) OR opc
     \<and> length (createCommand nc opc ps) = length ps + 1
     \<and> (\<forall>i < length ps.
           createCommand nc opc ps ! (i + 1) = word_of_int (ps ! i))
     \<and> ((\<forall>p \<in> set ps. 0 \<le> p \<and> p < 2 ^ 64)
          \<longrightarrow> map uint (tl (createCommand nc opc ps)) = ps)"
proof -
  let ?l = "int (length ps + 1)"
  let ?w = "push_bit 16 nc OR push_bit 8 ?l OR opc"
  have l: "0 \<le> ?l" "?l < 2 ^ 8"
    using assms(5) by simp_all
  have eq: "push_bit 16 nc + push_bit 8 ?l + opc = ?w"
    using assms(3,4) l by (rule cmd_word_or)
  have fits: "0 \<le> push_bit 16 nc + push_bit 8 ?l + opc
      \<and> push_bit 16 nc + push_bit 8 ?l + opc < 2 ^ 64"
    using assms(1-4) l by (rule cmd_word_fits)
  have buf: "createCommand nc opc ps = word_of_int ?w # map word_of_int ps"
    unfolding createCommand_def Let_def using eq by simp
  have first: "uint (word_of_int ?w :: 64 word) = ?w"
    using fits eq by (simp add: uint_word_of_int take_bit_int_eq_self flip: take_bit_eq_mod)
  have rest: "(\<forall>p \<in> set ps. 0 \<le> p \<and> p < 2 ^ 64)
      \<longrightarrow> map uint (tl (createCommand nc opc ps)) = ps"
    unfolding buf list.sel using uint_words_in_range by blast
  have nth: "\<forall>i < length ps. createCommand nc opc ps ! (i + 1) = word_of_int (ps ! i)"
    unfolding buf by simp
  have len: "length (createCommand nc opc ps) = length ps + 1"
    unfolding buf by simp
  have hd: "uint (hd (createCommand nc opc ps)) = ?w"
    unfolding buf list.sel by (rule first)
  from buf hd len nth rest show ?thesis
    by blast
qed

theorem createCommand_first_word_witness:
  "(0::int) \<le> 5 \<and> (5::int) < 2 ^ 48 \<and> (0::int) \<le> 7 \<and> (7::int) < 2 ^ 8
   \<and> length [11, 2 ^ 64 - 1 :: int] + 1 < 2 ^ 8
   \<and> createCommand 5 7 [11, 2 ^ 64 - 1] = [328455, 11, 18446744073709551615]
   \<and> uint (hd (createCommand 5 7 [11, 2 ^ 64 - 1])) = 328455"
  using createCommand_first_word [of 5 7 "[11, 2 ^ 64 - 1]"]
  by (simp add: push_bit_eq_mult)


subsection \<open>updateTxState swallows store errors\<close>

text \<open>
  Claim C9. \<open>updateTxState\<close> never throws and never ends the process: whatever the
  store does, it returns. When the store update throws, the store is left as it was.
  In particular, when the L2 deposit has succeeded (read at \<open>tick w\<close>, deposit at
  \<open>tick w + 1\<close>) and the update that marks the document completed throws (at
  \<open>tick w + 2\<close>), \<open>performDeposit\<close> still returns \<open>true\<close> and the persisted document
  is unchanged: not completed.
\<close>

theorem updateTxState_never_throws:
  "fst (updateTxState ev h st w) = Ret ()
   \<and> (db_fails ev (tick w) \<longrightarrow> store (snd (updateTxState ev h st w)) = store w)
   \<and> (\<not> isProcessingDeposit w \<and> \<not> db_fails ev (tick w) \<and> store w h = Some d
        \<and> state d \<noteq> ''completed'' \<and> rpc_deposit ev (tick w + 1) = Resolved True
        \<and> db_fails ev (tick w + 2)
      \<longrightarrow> fst (performDeposit ev h n p1 p2 idx amt w) = Ret True
          \<and> store (snd (performDeposit ev h n p1 p2 idx amt w)) h = Some d
          \<and> calls (snd (performDeposit ev h n p1 p2 idx amt w))
              = calls w @ [CallDeposit n p1 p2 idx amt (Some d)])"
  by (simp add: updateTxState_def performDeposit_def io_defs store_defs rpc_defs tick_numerals
           split: option.splits)

theorem updateTxState_never_throws_witness:
  "fst (updateTxState (env_ok\<lparr>db_fails := (\<lambda>t. t = 2)\<rparr>) ''0xaa'' ''completed''
          ((world_with (doc0 ''in-progress''))\<lparr>tick := 2\<rparr>)) = Ret ()
   \<and> store (snd (updateTxState (env_ok\<lparr>db_fails := (\<lambda>t. t = 2)\<rparr>) ''0xaa'' ''completed''
          ((world_with (doc0 ''in-progress''))\<lparr>tick := 2\<rparr>))) ''0xaa''
       = Some (doc0 ''in-progress'')
   \<and> fst (performDeposit (env_ok\<lparr>db_fails := (\<lambda>t. t = 2)\<rparr>) ''0xaa'' 5 1 2 1 2
          (world_with (doc0 ''in-progress''))) = Ret True
   \<and> store (snd (performDeposit (env_ok\<lparr>db_fails := (\<lambda>t. t = 2)\<rparr>) ''0xaa'' 5 1 2 1 2
          (world_with (doc0 ''in-progress'')))) ''0xaa'' = Some (doc0 ''in-progress'')"
  using updateTxState_never_throws
          [of "env_ok\<lparr>db_fails := (\<lambda>t. t = 2)\<rparr>" "''0xaa''" "''completed''"
              "(world_with (doc0 ''in-progress''))\<lparr>tick := 2\<rparr>"]
        updateTxState_never_throws
          [of "env_ok\<lparr>db_fails := (\<lambda>t. t = 2)\<rparr>" "''0xaa''" "''completed''"
              "world_with (doc0 ''in-progress'')" "doc0 ''in-progress''" 5 1 2 1 2]
  by (simp add: sample_defs)

subsection \<open>performDeposit on a completed document\<close>

text \<open>
  Claim C10, as the code has it. Let the document tracked for the hash be completed as
  \<open>performDeposit\<close> begins. No deposit is submitted and the store is not changed,
  whatever the environment does, and
  \<^item> with a submission in flight, the process exits with code 1 at once;
  \<^item> when the read of the document (at \<open>tick w\<close>) is answered, the process exits with
    code 1;
  \<^item> when that read throws, with no submission in flight, the \<open>catch\<close> block reads the
    document again (at \<open>tick w + 1\<close>): if this read is answered, \<open>performDeposit\<close>
    returns \<open>true\<close> with the flag cleared, and the process does not exit; if it throws
    too, \<open>performDeposit\<close> throws.
\<close>

theorem performDeposit_begun_on_completed:
  assumes "store w h = Some d" and "state d = ''completed''"
  shows "calls (snd (performDeposit ev h n p1 p2 idx amt w)) = calls w
       \<and> store (snd (performDeposit ev h n p1 p2 idx amt w)) = store w
       \<and> (isProcessingDeposit w \<longrightarrow> performDeposit ev h n p1 p2 idx amt w = (Exit 1, w))
       \<and> (\<not> db_fails ev (tick w) \<longrightarrow> fst (performDeposit ev h n p1 p2 idx amt w) = Exit 1)
       \<and> (\<not> isProcessingDeposit w \<and> db_fails ev (tick w) \<and> \<not> db_fails ev (tick w + 1) \<longrightarrow>
            fst (performDeposit ev h n p1 p2 idx amt w) = Ret True
            \<and> \<not> isProcessingDeposit (snd (performDeposit ev h n p1 p2 idx amt w))
            \<and> tick (snd (performDeposit ev h n p1 p2 idx amt w)) = tick w + 2)
       \<and> (\<not> isProcessingDeposit w \<and> db_fails ev (tick w) \<and> db_fails ev (tick w + 1) \<longrightarrow>
            (\<exists>e. fst (performDeposit ev h n p1 p2 idx amt w) = Throw e))"
  using assms
  by (simp add: performDeposit_def updateTxState_def io_defs store_defs)

theorem performDeposit_begun_on_completed_witness:
  "fst (performDeposit env_ok ''0xaa'' 5 1 2 1 2 (world_with (doc0 ''completed''))) = Exit 1
   \<and> calls (snd (performDeposit env_ok ''0xaa'' 5 1 2 1 2 (world_with (doc0 ''completed'')))) = []
   \<and> fst (performDeposit (env_ok\<lparr>db_fails := (\<lambda>t. t = 0)\<rparr>) ''0xaa'' 5 1 2 1 2
            (world_with (doc0 ''completed''))) = Ret True
   \<and> store (snd (performDeposit (env_ok\<lparr>db_fails := (\<lambda>t. t = 0)\<rparr>) ''0xaa'' 5 1 2 1 2
                  (world_with (doc0 ''completed'')))) ''0xaa'' = Some (doc0 ''completed'')"
  using performDeposit_begun_on_completed
          [of "world_with (doc0 ''completed'')" "''0xaa''" "doc0 ''completed''" env_ok 5 1 2 1 2]
        performDeposit_begun_on_completed
          [of "world_with (doc0 ''completed'')" "''0xaa''" "doc0 ''completed''"
              "env_ok\<lparr>db_fails := (\<lambda>t. t = 0)\<rparr>" 5 1 2 1 2]
  by (simp add: sample_defs)

text \<open>
  The claim as it is written fails: the document is completed as \<open>performDeposit\<close>
  begins, the first read of it throws, and \<open>performDeposit\<close> returns \<open>true\<close> instead of
  ending the process.
\<close>

theorem performDeposit_completed_returns_true_counterexample:
  "store (world_with (doc0 ''completed'')) ''0xaa'' = Some (doc0 ''completed'')
   \<and> state (doc0 ''completed'') = ''completed''
   \<and> performDeposit (env_ok\<lparr>db_fails := (\<lambda>t. t = 0)\<rparr>) ''0xaa'' 5 1 2 1 2
        (world_with (doc0 ''completed''))
     = (Ret True, (world_with (doc0 ''completed''))\<lparr>tick := 2\<rparr>)"
  by (simp add: sample_defs performDeposit_def io_defs store_defs)


subsection \<open>Verify first, then retry\<close>

lemma asUintN64_id: "0 \<le> n \<Longrightarrow> n < 2 ^ 64 \<Longrightarrow> asUintN64 n = n"
  by (simp add: asUintN64_def)

text \<open>
  With the event decoded, the token known and the lookup of the hash (at \<open>tick w + 1\<close>)
  answered with a tracked document, \<open>processTopUpEvent\<close> is the dispatch on that
  document, two external calls later.
\<close>

lemma reach_tracked:
  assumes "parsed event = Some a"
    and "contract_allTokens ev (tick w) = Resolved toks"
    and "getTokenIndex (arg_l1token a) toks = Some idx"
    and "\<not> db_fails ev (tick w + 1)"
    and "store w (transactionHash event) = Some d"
  shows "processTopUpEvent ev event w
       = processTracked ev event d a idx (bigint_div (arg_amount a) WEI_PER_ETHER)
           (w\<lparr>tick := tick w + 2\<rparr>)"
  using assms
  by (simp add: processTopUpEvent_def io_defs allTokens_def findOne_def Let_def
        split: prod.splits outcome.splits)

lemma first_call_is_check:
  assumes "\<And>x. preserves calls_extend (k x)"
  shows "\<exists>rest. calls (snd (io_bind (checkDeposit ev n p1 p2 idx amt) k w))
           = calls w @ CallCheckDeposit n p1 p2 idx amt # rest"
proof (cases "rpc_checkDeposit ev (tick w)")
  case (Resolved x)
  let ?w' = "advance (w\<lparr>calls := calls w @ [CallCheckDeposit n p1 p2 idx amt]\<rparr>)"
  from assms obtain ext where "calls (snd (k x ?w')) = calls ?w' @ ext"
    unfolding preserves_def calls_extend_def by blast
  then show ?thesis
    using Resolved by (simp add: io_bind_def checkDeposit_def Let_def advance_def)
next
  case (Rejected e)
  then show ?thesis
    by (simp add: io_bind_def checkDeposit_def Let_def advance_def)
qed

lemma processRetry_first_call:
  assumes "nonce d = Some n"
  shows "\<exists>rest. calls (snd (processRetry ev event d a idx amt w))
           = calls w @ CallCheckDeposit (asUintN64 n) (arg_pid_1 a) (arg_pid_2 a) idx amt # rest"
  unfolding processRetry_def io_catch_rethrow read_nonce_def
  using assms
  apply (simp add: io_bind_def [of "io_ret _"] io_ret_def)
  apply (rule first_call_is_check)
  apply (intro preserves_calls calls_extend_performDeposit calls_extend_updateTxState)
  done

lemma processRetry_verified:
  assumes "nonce d = Some n"
    and "rpc_checkDeposit ev (tick w) = Resolved (Some data)"
  shows "fst (processRetry ev event d a idx amt w) = Ret ()"
    and "calls (snd (processRetry ev event d a idx amt w))
           = calls w @ [CallCheckDeposit (asUintN64 n) (arg_pid_1 a) (arg_pid_2 a) idx amt]"
    and "\<not> db_fails ev (tick w + 1) \<Longrightarrow> store w (transactionHash event) = Some d \<Longrightarrow>
         state d \<noteq> ''completed'' \<Longrightarrow>
         store (snd (processRetry ev event d a idx amt w))
           = (store w)(transactionHash event \<mapsto> d\<lparr>state := ''completed''\<rparr>)"
  using assms
  by (simp_all add: processRetry_def updateTxState_def io_defs store_defs rpc_defs Let_def
        tick_numerals split: option.splits)

text \<open>
  The retry: \<open>checkDeposit\<close> answers \<open>null\<close> (at \<open>tick w\<close>), a nonce \<open>v\<close> is fetched
  (at \<open>tick w + 1\<close>), the document is saved (at \<open>tick w + 2\<close>) and \<open>performDeposit\<close>
  reads it (at \<open>tick w + 3\<close>) and submits the deposit (at \<open>tick w + 4\<close>).
\<close>

lemma processRetry_resubmits:
  assumes "nonce d = Some n"
    and "store w (transactionHash event) = Some d"
    and "state d \<noteq> ''completed''"
    and "rpc_checkDeposit ev (tick w) = Resolved None"
    and "rpc_getNonce ev (tick w + 1) = Resolved (Some v)"
    and "\<not> db_fails ev (tick w + 2)"
    and "\<not> db_fails ev (tick w + 3)"
    and "\<not> isProcessingDeposit w"
  shows "calls (snd (processRetry ev event d a idx amt w))
           = calls w @ [CallCheckDeposit (asUintN64 n) (arg_pid_1 a) (arg_pid_2 a) idx amt,
                        CallGetNonce,
                        CallDeposit (asUintN64 v) (arg_pid_1 a) (arg_pid_2 a) idx amt
                          (Some (d\<lparr>retryCount := retryCount d + 1,
                                   lastRetryTime := Some (clock_now ev (tick w + 1)),
                                   nonce := Some v\<rparr>))]"
  using assms
  by (simp add: processRetry_def performDeposit_def updateTxState_def io_defs store_defs rpc_defs
        Let_def tick_numerals split: resp.splits)

text \<open>
  Claim C1. Let the event be decoded, its token be in the contract's list (read at
  \<open>tick w\<close>), and the lookup of its hash (at \<open>tick w + 1\<close>) find a document in state
  \<open>'in-progress'\<close> or \<open>'failed'\<close> with the nonce \<open>n\<close> set. Then
  \<^item> the first L2 call that processing the event makes is
    \<open>checkDeposit(nonce, pid_1, pid_2, tokenIndex, amount)\<close>, with the nonce as read through
    the getter of the schema (the nonce itself when it is an unsigned 64-bit value) and the
    amount in whole units: every other call, and so any resubmission, comes after it;
  \<^item> when \<open>checkDeposit\<close> answers with data that is not \<open>null\<close>, no other L2 call is made
    (no deposit is submitted) and the document is updated to \<open>'completed'\<close> (persisted
    when the store accepts the update, at \<open>tick w + 3\<close>);
  \<^item> when it answers \<open>null\<close> and a nonce \<open>v\<close> is fetched (at \<open>tick w + 3\<close>), the document
    is saved with \<open>retryCount\<close> incremented and the nonce \<open>v\<close> (at \<open>tick w + 4\<close>), and the
    deposit is submitted with the nonce \<open>v\<close> while the store holds that document
    (\<open>performDeposit\<close> entered with no submission in flight, its read at \<open>tick w + 5\<close>).
\<close>

theorem retry_verifies_before_resubmitting:
  assumes "parsed event = Some a"
    and "contract_allTokens ev (tick w) = Resolved toks"
    and "getTokenIndex (arg_l1token a) toks = Some idx"
    and "\<not> db_fails ev (tick w + 1)"
    and "store w (transactionHash event) = Some d"
    and "state d = ''in-progress'' \<or> state d = ''failed''"
    and "nonce d = Some n"
  defines "amt \<equiv> bigint_div (arg_amount a) WEI_PER_ETHER"
  defines "chk \<equiv> CallCheckDeposit (asUintN64 n) (arg_pid_1 a) (arg_pid_2 a) idx amt"
  defines "r \<equiv> processTopUpEvent ev event w"
  shows "(\<exists>rest. calls (snd r) = calls w @ chk # rest)
     \<and> (0 \<le> n \<and> n < 2 ^ 64 \<longrightarrow> asUintN64 n = n)
     \<and> (\<forall>data. rpc_checkDeposit ev (tick w + 2) = Resolved (Some data) \<longrightarrow>
           fst r = Ret () \<and> calls (snd r) = calls w @ [chk]
           \<and> (\<not> db_fails ev (tick w + 3) \<longrightarrow>
                store (snd r) = (store w)(transactionHash event \<mapsto> d\<lparr>state := ''completed''\<rparr>)))
     \<and> (\<forall>v. rpc_checkDeposit ev (tick w + 2) = Resolved None
             \<and> rpc_getNonce ev (tick w + 3) = Resolved (Some v)
             \<and> \<not> db_fails ev (tick w + 4) \<and> \<not> db_fails ev (tick w + 5)
             \<and> \<not> isProcessingDeposit w \<longrightarrow>
           calls (snd r) = calls w @ [chk, CallGetNonce,
             CallDeposit (asUintN64 v) (arg_pid_1 a) (arg_pid_2 a) idx amt
               (Some (d\<lparr>retryCount := retryCount d + 1,
                        lastRetryTime := Some (clock_now ev (tick w + 3)),
                        nonce := Some v\<rparr>))])"
proof -
  let ?w2 = "w\<lparr>tick := tick w + 2\<rparr>"
  have not_completed: "state d \<noteq> ''completed''"
    using assms(6) by auto
  have run: "r = processRetry ev event d a idx amt ?w2"
    unfolding r_def amt_def reach_tracked [OF assms(1-5)]
    using assms(6) by (auto simp: processTracked_def)
  have first: "\<exists>rest. calls (snd r) = calls w @ chk # rest"
    unfolding run chk_def using processRetry_first_call [OF assms(7), of ev event a idx amt ?w2]
    by simp
  have verified: "fst r = Ret () \<and> calls (snd r) = calls w @ [chk]
      \<and> (\<not> db_fails ev (tick w + 3) \<longrightarrow>
           store (snd r) = (store w)(transactionHash event \<mapsto> d\<lparr>state := ''completed''\<rparr>))"
    if "rpc_checkDeposit ev (tick w + 2) = Resolved (Some data)" for data
    unfolding run chk_def
    using processRetry_verified [OF assms(7), of ev ?w2 data event a idx amt] that assms(5)
      not_completed
    by (simp add: tick_numerals)
  have resubmits: "calls (snd r) = calls w @ [chk, CallGetNonce,
             CallDeposit (asUintN64 v) (arg_pid_1 a) (arg_pid_2 a) idx amt
               (Some (d\<lparr>retryCount := retryCount d + 1,
                        lastRetryTime := Some (clock_now ev (tick w + 3)),
                        nonce := Some v\<rparr>))]"
    if "rpc_checkDeposit ev (tick w + 2) = Resolved None"
      and "rpc_getNonce ev (tick w + 3) = Resolved (Some v)"
      and "\<not> db_fails ev (tick w + 4)" and "\<not> db_fails ev (tick w + 5)"
      and "\<not> isProcessingDeposit w" for v
    unfolding run chk_def
    using processRetry_resubmits [OF assms(7), of ?w2 event ev v a idx amt] that assms(5)
      not_completed
    by (simp add: tick_numerals)
  from first verified resubmits asUintN64_id [of n] show ?thesis
    by blast
qed

theorem retry_verifies_before_resubmitting_witness:
  "processTopUpEvent (env_ok\<lparr>rpc_checkDeposit := (\<lambda>_. Resolved (Some ''receipt''))\<rparr>) event0
      (world_with (doc0 ''in-progress''))
     = (Ret (), \<lparr>store = [''0xaa'' \<mapsto> doc0 ''completed''], isProcessingDeposit = False,
                tick = 4, calls = [CallCheckDeposit 5 1 2 1 2]\<rparr>)
   \<and> calls (snd (processTopUpEvent env_ok event0 (world_with (doc0 ''failed''))))
     = [CallCheckDeposit 5 1 2 1 2, CallGetNonce,
        CallDeposit 7 1 2 1 2
          (Some ((doc0 ''failed'')\<lparr>retryCount := 1, lastRetryTime := Some 1003,
                                  nonce := Some 7\<rparr>))]"
  using retry_verifies_before_resubmitting
          [of event0 args0 "env_ok\<lparr>rpc_checkDeposit := (\<lambda>_. Resolved (Some ''receipt''))\<rparr>"
              "world_with (doc0 ''in-progress'')" "[''0xT0'', ''0xT1'']" 1 "doc0 ''in-progress''" 5]
        retry_verifies_before_resubmitting
          [of event0 args0 env_ok "world_with (doc0 ''failed'')" "[''0xT0'', ''0xT1'']" 1
              "doc0 ''failed''" 5]
  by (simp add: sample_defs getTokenIndex_def bigint_div_def WEI_PER_ETHER_def asUintN64_def
        proc_defs io_defs store_defs rpc_defs)


subsection \<open>A first observation: dust and credit\<close>

text \<open>
  With the event decoded, the token known and the lookup of the hash (at \<open>tick w + 1\<close>)
  finding no document, \<open>processTopUpEvent\<close> is the branch \<open>if (!tx)\<close>, two external
  calls later.
\<close>

lemma reach_untracked:
  assumes "parsed event = Some a"
    and "contract_allTokens ev (tick w) = Resolved toks"
    and "getTokenIndex (arg_l1token a) toks = Some idx"
    and "\<not> db_fails ev (tick w + 1)"
    and "store w (transactionHash event) = None"
  shows "processTopUpEvent ev event w
       = processUntracked ev event a idx (bigint_div (arg_amount a) WEI_PER_ETHER)
           (w\<lparr>tick := tick w + 2\<rparr>)"
  using assms
  by (simp add: processTopUpEvent_def io_defs allTokens_def findOne_def Let_def
        split: prod.splits outcome.splits)

lemma processUntracked_dust:
  assumes "amt < 1"
  shows "calls (snd (processUntracked ev event a idx amt w)) = calls w"
    and "\<not> db_fails ev (tick w) \<Longrightarrow>
         processUntracked ev event a idx amt w
           = (Ret (), w\<lparr>tick := tick w + 1,
                store := (store w)(transactionHash event \<mapsto>
                  \<lparr>state = ''completed'', timestamp = clock_now ev (tick w),
                   l1token = arg_l1token a, address = arg_address a, nonce = None,
                   pid_1 = arg_pid_1 a, pid_2 = arg_pid_2 a, amount = amt,
                   retryCount = 0, lastRetryTime = None\<rparr>)\<rparr>)"
  using assms
  by (simp_all add: processUntracked_def io_defs store_defs)

text \<open>
  The first submission: the pending document is saved (at \<open>tick w\<close>), a nonce \<open>v\<close> is
  fetched (at \<open>tick w + 1\<close>) and saved (at \<open>tick w + 2\<close>), the state \<open>'in-progress'\<close> is
  saved (at \<open>tick w + 3\<close>), and \<open>performDeposit\<close> reads the document (at \<open>tick w + 4\<close>),
  submits the deposit (at \<open>tick w + 5\<close>) and marks the document (at \<open>tick w + 6\<close>).
\<close>

lemma processUntracked_submits:
  assumes "\<not> amt < 1"
    and "\<not> db_fails ev (tick w)"
    and "rpc_getNonce ev (tick w + 1) = Resolved (Some v)"
    and "\<not> db_fails ev (tick w + 2)"
    and "\<not> db_fails ev (tick w + 3)"
    and "\<not> db_fails ev (tick w + 4)"
    and "\<not> isProcessingDeposit w"
    and "tx = \<lparr>state = ''in-progress'', timestamp = clock_now ev (tick w),
                   l1token = arg_l1token a, address = arg_address a, nonce = Some v,
                   pid_1 = arg_pid_1 a, pid_2 = arg_pid_2 a, amount = amt,
                   retryCount = 0, lastRetryTime = None\<rparr>"
  shows "calls (snd (processUntracked ev event a idx amt w))
           = calls w @ [CallGetNonce,
               CallDeposit (asUintN64 v) (arg_pid_1 a) (arg_pid_2 a) idx amt (Some tx)]"
    and "rpc_deposit ev (tick w + 5) = Resolved True \<Longrightarrow> \<not> db_fails ev (tick w + 6) \<Longrightarrow>
         fst (processUntracked ev event a idx amt w) = Ret ()
         \<and> store (snd (processUntracked ev event a idx amt w))
             = (store w)(transactionHash event \<mapsto> tx\<lparr>state := ''completed''\<rparr>)"
  using assms
  by (simp_all add: processUntracked_def submitInProgress_def assignNonce_def performDeposit_def
        updateTxState_def io_defs store_defs rpc_defs Let_def tick_numerals split: resp.splits)

lemma bigint_div_nonneg: "0 \<le> a \<Longrightarrow> 0 < b \<Longrightarrow> bigint_div a b = a div b"
  by (cases "a = 0") (simp_all add: bigint_div_def)

text \<open>
  Claim C4. Let the event be decoded with an amount \<open>amountWei \<ge> 0\<close> (a \<open>uint256\<close>),
  its token be in the contract's list (read at \<open>tick w\<close>), and the lookup of its hash
  (at \<open>tick w + 1\<close>) find no document. Write \<open>amt\<close> for \<open>amountWei div 10^18\<close>.
  \<^item> When \<open>amt < 1\<close>, no L2 call is made, and the document is inserted directly in state
    \<open>'completed'\<close> with the amount \<open>amt\<close> (when the store accepts the insert, at
    \<open>tick w + 2\<close>).
  \<^item> When \<open>amt \<ge> 1\<close> and the calls on the way are answered (inserts and saves at
    \<open>tick w + 2\<close>, \<open>+ 4\<close>, \<open>+ 5\<close>, the nonce \<open>v\<close> at \<open>tick w + 3\<close>, the read of
    \<open>performDeposit\<close> at \<open>tick w + 6\<close>, no submission in flight), exactly one deposit is
    submitted, of the amount \<open>amt\<close>; when it succeeds (at \<open>tick w + 7\<close>) and the update
    is accepted (at \<open>tick w + 8\<close>), the document ends completed.
  \<^item> \<open>amountWei = 10^18\<close> gives \<open>amt = 1\<close> (credited) and \<open>amountWei = 10^18 - 1\<close> gives
    \<open>amt = 0\<close> (recorded as completed, not credited).
\<close>

theorem untracked_event_credits_whole_units:
  assumes "parsed event = Some a"
    and "contract_allTokens ev (tick w) = Resolved toks"
    and "getTokenIndex (arg_l1token a) toks = Some idx"
    and "\<not> db_fails ev (tick w + 1)"
    and "store w (transactionHash event) = None"
    and "0 \<le> arg_amount a"
  defines "amt \<equiv> arg_amount a div 10 ^ 18"
  defines "r \<equiv> processTopUpEvent ev event w"
  defines "tx \<equiv> \<lparr>state = ''pending'', timestamp = clock_now ev (tick w + 2),
                   l1token = arg_l1token a, address = arg_address a, nonce = None,
                   pid_1 = arg_pid_1 a, pid_2 = arg_pid_2 a, amount = amt,
                   retryCount = 0, lastRetryTime = None\<rparr>"
  shows "(amt < 1 \<longrightarrow>
            calls (snd r) = calls w
            \<and> (\<not> db_fails ev (tick w + 2) \<longrightarrow>
                 fst r = Ret ()
                 \<and> store (snd r) = (store w)(transactionHash event \<mapsto> tx\<lparr>state := ''completed''\<rparr>)))
     \<and> (\<forall>v. 1 \<le> amt \<and> \<not> db_fails ev (tick w + 2)
             \<and> rpc_getNonce ev (tick w + 3) = Resolved (Some v)
             \<and> \<not> db_fails ev (tick w + 4) \<and> \<not> db_fails ev (tick w + 5)
             \<and> \<not> db_fails ev (tick w + 6) \<and> \<not> isProcessingDeposit w \<longrightarrow>
           calls (snd r) = calls w @ [CallGetNonce,
             CallDeposit (asUintN64 v) (arg_pid_1 a) (arg_pid_2 a) idx amt
               (Some (tx\<lparr>state := ''in-progress'', nonce := Some v\<rparr>))]
           \<and> (rpc_deposit ev (tick w + 7) = Resolved True \<and> \<not> db_fails ev (tick w + 8) \<longrightarrow>
                fst r = Ret ()
                \<and> store (snd r) = (store w)(transactionHash event \<mapsto>
                      tx\<lparr>state := ''completed'', nonce := Some v\<rparr>)))
     \<and> (arg_amount a = 10 ^ 18 \<longrightarrow> amt = 1)
     \<and> (arg_amount a = 10 ^ 18 - 1 \<longrightarrow> amt = 0)"
proof -
  let ?w2 = "w\<lparr>tick := tick w + 2\<rparr>"
  have amt: "bigint_div (arg_amount a) WEI_PER_ETHER = amt"
    unfolding amt_def WEI_PER_ETHER_def using assms(6) by (simp add: bigint_div_nonneg)
  have run: "r = processUntracked ev event a idx amt ?w2"
    unfolding r_def reach_untracked [OF assms(1-5)] amt ..
  have dust: "calls (snd r) = calls w
      \<and> (\<not> db_fails ev (tick w + 2) \<longrightarrow>
           fst r = Ret ()
           \<and> store (snd r) = (store w)(transactionHash event \<mapsto> tx\<lparr>state := ''completed''\<rparr>))"
    if "amt < 1"
    unfolding run tx_def
    using processUntracked_dust [where amt = amt and ev = ev and event = event and a = a
        and idx = idx and w = ?w2] that
    by (auto simp: tick_numerals)
  have credit: "calls (snd r) = calls w @ [CallGetNonce,
             CallDeposit (asUintN64 v) (arg_pid_1 a) (arg_pid_2 a) idx amt
               (Some (tx\<lparr>state := ''in-progress'', nonce := Some v\<rparr>))]
           \<and> (rpc_deposit ev (tick w + 7) = Resolved True \<and> \<not> db_fails ev (tick w + 8) \<longrightarrow>
                fst r = Ret ()
                \<and> store (snd r) = (store w)(transactionHash event \<mapsto>
                      tx\<lparr>state := ''completed'', nonce := Some v\<rparr>))"
    if "1 \<le> amt" and "\<not> db_fails ev (tick w + 2)"
      and "rpc_getNonce ev (tick w + 3) = Resolved (Some v)"
      and "\<not> db_fails ev (tick w + 4)" and "\<not> db_fails ev (tick w + 5)"
      and "\<not> db_fails ev (tick w + 6)" and "\<not> isProcessingDeposit w" for v
  proof -
    have "\<not> amt < 1"
      using that(1) by simp
    then show ?thesis
      unfolding run tx_def
      using processUntracked_submits [where amt = amt and ev = ev and event = event and a = a
          and idx = idx and w = ?w2 and v = v, OF _ _ _ _ _ _ _ refl] that
      by (simp add: tick_numerals)
  qed
  have one: "arg_amount a = 10 ^ 18 \<Longrightarrow> amt = 1"
    unfolding amt_def by simp
  have zero: "arg_amount a = 10 ^ 18 - 1 \<Longrightarrow> amt = 0"
    unfolding amt_def by simp
  from dust credit one zero show ?thesis
    by blast
qed

theorem untracked_event_credits_whole_units_witness:
  "processTopUpEvent env_ok (event0\<lparr>parsed := Some (args0\<lparr>arg_amount := 10 ^ 18 - 1\<rparr>)\<rparr>) world0
     = (Ret (), \<lparr>store = [''0xaa'' \<mapsto>
                    \<lparr>state = ''completed'', timestamp = 1002, l1token = ''0xT1'',
                     address = ''0xU'', nonce = None, pid_1 = 1, pid_2 = 2, amount = 0,
                     retryCount = 0, lastRetryTime = None\<rparr>],
                isProcessingDeposit = False, tick = 3, calls = []\<rparr>)
   \<and> processTopUpEvent env_ok (event0\<lparr>parsed := Some (args0\<lparr>arg_amount := 10 ^ 18\<rparr>)\<rparr>) world0
     = (Ret (), \<lparr>store = [''0xaa'' \<mapsto>
                    \<lparr>state = ''completed'', timestamp = 1002, l1token = ''0xT1'',
                     address = ''0xU'', nonce = Some 7, pid_1 = 1, pid_2 = 2, amount = 1,
                     retryCount = 0, lastRetryTime = None\<rparr>],
                isProcessingDeposit = False, tick = 9,
                calls = [CallGetNonce,
                  CallDeposit 7 1 2 1 1
                    (Some \<lparr>state = ''in-progress'', timestamp = 1002, l1token = ''0xT1'',
                           address = ''0xU'', nonce = Some 7, pid_1 = 1, pid_2 = 2, amount = 1,
                           retryCount = 0, lastRetryTime = None\<rparr>)]\<rparr>)"
  using untracked_event_credits_whole_units
          [of "event0\<lparr>parsed := Some (args0\<lparr>arg_amount := 10 ^ 18 - 1\<rparr>)\<rparr>"
              "args0\<lparr>arg_amount := 10 ^ 18 - 1\<rparr>" env_ok world0 "[''0xT0'', ''0xT1'']" 1]
        untracked_event_credits_whole_units
          [of "event0\<lparr>parsed := Some (args0\<lparr>arg_amount := 10 ^ 18\<rparr>)\<rparr>"
              "args0\<lparr>arg_amount := 10 ^ 18\<rparr>" env_ok world0 "[''0xT0'', ''0xT1'']" 1]
  by (simp add: sample_defs getTokenIndex_def bigint_div_def WEI_PER_ETHER_def asUintN64_def
        proc_defs io_defs store_defs rpc_defs)


subsection \<open>What every deposit submission finds persisted\<close>

text \<open>
  A relation of the end state to the start state is shown for a sequence from the
  relation of each step, given what the step before has returned.
\<close>

lemma reflp_deposits_durable: "reflp deposits_durable"
  by (simp add: reflp_def deposits_durable_def)

lemma transp_deposits_durable: "transp deposits_durable"
  by (auto simp: transp_def deposits_durable_def)

lemma rel_bind:
  assumes "transp R" and "R w (snd (m w))"
    and "\<And>x w'. m w = (Ret x, w') \<Longrightarrow> R w' (snd (f x w'))"
  shows "R w (snd (io_bind m f w))"
proof -
  obtain r w' where mw: "m w = (r, w')"
    by (cases "m w")
  show ?thesis
  proof (cases r)
    case (Ret x)
    then have "R w' (snd (f x w'))"
      using assms(3) mw by simp
    then have "R w (snd (f x w'))"
      using assms(1,2) mw by (auto dest: transpD)
    then show ?thesis
      using mw Ret by (simp add: io_bind_def)
  qed (use mw assms(2) in \<open>simp_all add: io_bind_def\<close>)
qed

lemma rel_catch:
  assumes "transp R" and "R w (snd (m w))"
    and "\<And>e w'. m w = (Throw e, w') \<Longrightarrow> R w' (snd (h e w'))"
  shows "R w (snd (io_catch m h w))"
proof -
  obtain r w' where mw: "m w = (r, w')"
    by (cases "m w")
  show ?thesis
  proof (cases r)
    case (Throw e)
    then have "R w' (snd (h e w'))"
      using assms(3) mw by simp
    then have "R w (snd (h e w'))"
      using assms(1,2) mw by (auto dest: transpD)
    then show ?thesis
      using mw Throw by (simp add: io_catch_def)
  qed (use mw assms(2) in \<open>simp_all add: io_catch_def\<close>)
qed

lemma durable_prims:
  "preserves deposits_durable (findOne ev h)"
  "preserves deposits_durable (save ev h tx)"
  "preserves deposits_durable (updateOne_unless_completed ev h st)"
  "preserves deposits_durable (new_TxHash ev st a amt)"
  "preserves deposits_durable (read_nonce tx)"
  "preserves deposits_durable (date_now ev)"
  "preserves deposits_durable (getNonce ev)"
  "preserves deposits_durable (checkDeposit ev n p1 p2 idx amt)"
  "preserves deposits_durable (allTokens ev)"
  by (simp_all add: preserves_def deposits_durable_def durable_before_def io_defs store_defs
        rpc_defs Let_def split: option.splits resp.splits)

lemmas preserves_durable =
  preserves_bind [OF transp_deposits_durable] preserves_catch [OF transp_deposits_durable]
  preserves_if preserves_case_option
  preserves_ret [OF reflp_deposits_durable] preserves_throw [OF reflp_deposits_durable]
  preserves_exit [OF reflp_deposits_durable] durable_prims

lemma durable_updateTxState: "preserves deposits_durable (updateTxState ev h st)"
  unfolding updateTxState_def by (intro preserves_durable)

lemma durable_performDeposit:
  assumes "durable_before (CallDeposit n p1 p2 idx amt (store w h))"
  shows "deposits_durable w (snd (performDeposit ev h n p1 p2 idx amt w))"
  using assms
  by (auto simp: performDeposit_def updateTxState_def io_defs store_defs rpc_defs Let_def
        deposits_durable_def durable_before_def
        split: if_splits option.splits resp.splits)


lemma durable_assignNonce: "preserves deposits_durable (assignNonce ev h tx)"
  unfolding assignNonce_def by (intro preserves_durable)

lemma durableD: "preserves deposits_durable m \<Longrightarrow> deposits_durable w (snd (m w))"
  by (simp add: preserves_def)

lemmas durable_bind = rel_bind [OF transp_deposits_durable]
lemmas durable_catch = rel_catch [OF transp_deposits_durable]

lemma durable_refl: "deposits_durable w w"
  by (simp add: deposits_durable_def)

lemma durable_submitInProgress:
  "deposits_durable w (snd (submitInProgress ev event (tx\<lparr>nonce := Some v\<rparr>) v a idx amt w))"
  unfolding submitInProgress_def
  by (intro durable_catch durable_bind)
     (auto simp: durableD durable_prims durable_updateTxState io_ret_def io_throw_def durable_refl
        durable_before_def dest!: save_Ret intro!: durable_performDeposit)

lemma durable_processUntracked:
  "deposits_durable w (snd (processUntracked ev event a idx amt w))"
  unfolding processUntracked_def
  by (auto intro!: durable_bind
        simp: durableD durable_prims durable_assignNonce durable_updateTxState io_ret_def
          durable_refl durable_submitInProgress)

lemma durable_processPending:
  "deposits_durable w (snd (processPending ev event tx a idx amt w))"
  unfolding processPending_def io_catch_rethrow
  by (auto intro!: durable_bind
        simp: durableD durable_prims durable_assignNonce durable_updateTxState io_ret_def
          durable_refl durable_submitInProgress)

lemma durable_processRetry:
  assumes "state tx = ''in-progress'' \<or> state tx = ''failed''"
  shows "deposits_durable w (snd (processRetry ev event tx a idx amt w))"
  unfolding processRetry_def io_catch_rethrow
  using assms
  by (auto intro!: durable_bind
        simp: durableD durable_prims durable_updateTxState io_ret_def io_exit_def
          durable_refl durable_before_def
        dest!: save_Ret intro!: durable_performDeposit split: option.splits)

lemma durable_processTracked:
  "deposits_durable w (snd (processTracked ev event tx a idx amt w))"
  unfolding processTracked_def
  by (auto simp: io_ret_def io_exit_def durable_refl durable_processPending durable_processRetry)

text \<open>
  Whatever the environment does, every deposit that processing an event submits finds
  persisted, as it is issued, a document whose nonce is the nonce submitted and whose
  state is \<open>'in-progress'\<close> or \<open>'failed'\<close>.
\<close>

lemma durable_processTopUpEvent:
  "deposits_durable w (snd (processTopUpEvent ev event w))"
  unfolding processTopUpEvent_def io_catch_rethrow Let_def
  by (auto intro!: durable_bind
        simp: durableD durable_prims io_ret_def io_throw_def durable_refl
          durable_processTracked durable_processUntracked split: option.splits)


subsection \<open>Completed is terminal\<close>














subsection \<open>What is durable when a retried deposit is submitted\<close>

text \<open>
  Claim C3, on the retry path from state \<open>'failed'\<close>. Let the event be decoded, its token
  be known (read at \<open>tick w\<close>), and the lookup of its hash (at \<open>tick w + 1\<close>) find a
  document in state \<open>'failed'\<close> with a nonce set; let \<open>checkDeposit\<close> answer \<open>null\<close>
  (at \<open>tick w + 2\<close>), a fresh nonce \<open>v\<close> be fetched (at \<open>tick w + 3\<close>) and saved (at
  \<open>tick w + 4\<close>), and \<open>performDeposit\<close> read the document (at \<open>tick w + 5\<close>) with no
  submission in flight. Then the deposit is submitted while the document persisted for
  the hash has the nonce \<open>v\<close> and the state \<open>'failed'\<close>: the retry path saves the
  nonce and the retry count, and never the state \<open>'in-progress'\<close>.
\<close>

theorem retry_from_failed_submits_in_state_failed:
  assumes "parsed event = Some a"
    and "contract_allTokens ev (tick w) = Resolved toks"
    and "getTokenIndex (arg_l1token a) toks = Some idx"
    and "\<not> db_fails ev (tick w + 1)"
    and "store w (transactionHash event) = Some d"
    and "state d = ''failed''"
    and "nonce d = Some n"
    and "rpc_checkDeposit ev (tick w + 2) = Resolved None"
    and "rpc_getNonce ev (tick w + 3) = Resolved (Some v)"
    and "\<not> db_fails ev (tick w + 4)"
    and "\<not> db_fails ev (tick w + 5)"
    and "\<not> isProcessingDeposit w"
  shows "\<exists>persisted.
           last (calls (snd (processTopUpEvent ev event w)))
             = CallDeposit (asUintN64 v) (arg_pid_1 a) (arg_pid_2 a) idx
                 (bigint_div (arg_amount a) WEI_PER_ETHER) (Some persisted)
           \<and> nonce persisted = Some v
           \<and> state persisted = ''failed''
           \<and> state persisted \<noteq> ''in-progress''"
proof -
  let ?w2 = "w\<lparr>tick := tick w + 2\<rparr>"
  let ?amt = "bigint_div (arg_amount a) WEI_PER_ETHER"
  have run: "processTopUpEvent ev event w = processRetry ev event d a idx ?amt ?w2"
    unfolding reach_tracked [OF assms(1-5)]
    using assms(6) by (simp add: processTracked_def)
  have "calls (snd (processTopUpEvent ev event w))
      = calls w @ [CallCheckDeposit (asUintN64 n) (arg_pid_1 a) (arg_pid_2 a) idx ?amt,
                   CallGetNonce,
                   CallDeposit (asUintN64 v) (arg_pid_1 a) (arg_pid_2 a) idx ?amt
                     (Some (d\<lparr>retryCount := retryCount d + 1,
                              lastRetryTime := Some (clock_now ev (tick w + 3)),
                              nonce := Some v\<rparr>))]"
    unfolding run
    using processRetry_resubmits [where d = d and n = n and w = ?w2 and event = event
        and ev = ev and v = v and a = a and idx = idx and amt = ?amt] assms
    by (simp add: tick_numerals)
  then show ?thesis
    using assms(6) by simp
qed

theorem retry_from_failed_submits_in_state_failed_witness:
  "last (calls (snd (processTopUpEvent env_ok event0 (world_with (doc0 ''failed'')))))
     = CallDeposit 7 1 2 1 2
         (Some \<lparr>state = ''failed'', timestamp = 900, l1token = ''0xT1'', address = ''0xU'',
                nonce = Some 7, pid_1 = 1, pid_2 = 2, amount = 2, retryCount = 1,
                lastRetryTime = Some 1003\<rparr>)"
  using retry_from_failed_submits_in_state_failed
          [of event0 args0 env_ok "world_with (doc0 ''failed'')" "[''0xT0'', ''0xT1'']" 1
              "doc0 ''failed''" 5 7]
  by (simp add: sample_defs getTokenIndex_def bigint_div_def WEI_PER_ETHER_def asUintN64_def
        proc_defs io_defs store_defs rpc_defs)


subsection \<open>When the process exits\<close>













text \<open>
  Reading the nonce of a document that has none throws, so the retry branch ends with
  the \<open>TypeError\<close> before its \<open>else\<close> branch is reached.
\<close>

lemma processRetry_nonce_unset:
  assumes "nonce d = None"
  shows "processRetry ev event d a idx amt w = (Throw TypeError, w)"
  using assms
  by (simp add: processRetry_def read_nonce_def io_defs)













subsection \<open>The ranges of the historical sweep\<close>

lemma scanned_scanBatches:
  "scanned b (scanBatches f l)
     \<longleftrightarrow> f \<le> b \<and> b \<le> l \<and> f < l \<and> (b < l \<or> (l - f) mod 25000 \<noteq> 0)"
proof (induction f l rule: scanBatches.induct)
  case (1 f l)
  show ?case
  proof (cases "f < l")
    case False
    then show ?thesis
      by (subst scanBatches.simps) (simp add: scanned_def)
  next
    case True
    have step: "scanned b (scanBatches f l)
        \<longleftrightarrow> (f \<le> b \<and> b \<le> min (f + 25000 - 1) l) \<or> scanned b (scanBatches (f + 25000) l)"
      using True by (subst scanBatches.simps) (simp add: scanned_def batchSize_def)
    have ih: "scanned b (scanBatches (f + 25000) l)
        \<longleftrightarrow> f + 25000 \<le> b \<and> b \<le> l \<and> f + 25000 < l
            \<and> (b < l \<or> (l - (f + 25000)) mod 25000 \<noteq> 0)"
      using "1.IH" [OF True] by (simp add: batchSize_def)
    have "l - (f + 25000) = (l - f) - 25000"
      by simp
    then have m: "(l - (f + 25000)) mod 25000 = (l - f) mod 25000"
      by (simp only: minus_mod_self2)
    have small: "(l - f) mod 25000 \<noteq> 0" if "l - f < 25000"
      using that True by simp
    have exact: "(l - f) mod 25000 = 0" if "l - f = 25000"
      using that by simp
    show ?thesis
    proof (cases "l - f \<le> 25000")
      case le: True
      show ?thesis
      proof (cases "l - f = 25000")
        case True
        then show ?thesis
          unfolding step ih m using exact \<open>f < l\<close> by (auto simp: min_def)
      next
        case False
        with le have "l - f < 25000"
          by simp
        then show ?thesis
          unfolding step ih m using small \<open>f < l\<close> by (auto simp: min_def)
      qed
    next
      case False
      then show ?thesis
        unfolding step ih m using \<open>f < l\<close> by (auto simp: min_def)
    qed
  qed
qed

lemma scanBatches_sizes:
  "(lo, hi) \<in> set (scanBatches f l) \<Longrightarrow> f \<le> lo \<and> lo \<le> hi \<and> hi \<le> l \<and> hi - lo + 1 \<le> 25000"
proof (induction f l rule: scanBatches.induct)
  case (1 f l)
  show ?case
  proof (cases "f < l")
    case False
    then show ?thesis
      using "1.prems" by (subst (asm) scanBatches.simps) simp
  next
    case True
    from "1.prems" True
    have "(lo, hi) = (f, min (f + 25000 - 1) l) \<or> (lo, hi) \<in> set (scanBatches (f + 25000) l)"
      by (subst (asm) scanBatches.simps) (simp add: batchSize_def)
    then show ?thesis
    proof
      assume "(lo, hi) = (f, min (f + 25000 - 1) l)"
      then show ?thesis
        using True by (auto simp: min_def)
    next
      assume "(lo, hi) \<in> set (scanBatches (f + 25000) l)"
      then have "f + 25000 \<le> lo \<and> lo \<le> hi \<and> hi \<le> l \<and> hi - lo + 1 \<le> 25000"
        using "1.IH" [OF True] by (simp add: batchSize_def)
      then show ?thesis
        by simp
    qed
  qed
qed

lemma scanned_pollBatches:
  "scanned b (pollBatches f l) \<longleftrightarrow> f \<le> b \<and> b \<le> l"
proof (induction f l rule: pollBatches.induct)
  case (1 f l)
  show ?case
  proof (cases "f \<le> l")
    case False
    then show ?thesis
      by (subst pollBatches.simps) (simp add: scanned_def)
  next
    case True
    have step: "scanned b (pollBatches f l)
        \<longleftrightarrow> (f \<le> b \<and> b \<le> min (f + 25000 - 1) l) \<or> scanned b (pollBatches (f + 25000) l)"
      using True by (subst pollBatches.simps) (simp add: scanned_def batchSize_def)
    have ih: "scanned b (pollBatches (f + 25000) l) \<longleftrightarrow> f + 25000 \<le> b \<and> b \<le> l"
      using "1.IH" [OF True] by (simp add: batchSize_def)
    show ?thesis
      unfolding step ih using True by (auto simp: min_def)
  qed
qed

text \<open>
  Claim C8, as the code has it. The sweep is skipped when the configured start block
  is above the head; otherwise it starts at the configured start block, or at
  \<open>max(0, head - 200000)\<close> when none is configured. Its batches lie between the start
  and the head and cover at most 25000 blocks each. But the loop runs while
  \<open>fromBlock < latestBlock\<close>: a block \<open>b\<close> is scanned exactly when
  \<open>start \<le> b \<le> head\<close>, \<open>start < head\<close>, and \<open>b\<close> is not the head or
  \<open>head - start\<close> is not a multiple of 25000. So when the configured start block
  equals the head, no range is queried at all and the head block is not scanned, where
  the claim says it still is. The tail poll, whose loop runs while
  \<open>fromBlock <= currentBlock\<close>, does scan the last block of its range.
\<close>

theorem historical_sweep_stops_before_head:
  "historicalRanges (Some s) head = (if s > head then None else Some (scanBatches s head))
   \<and> historicalRanges None head = Some (scanBatches (max 0 (head - 200000)) head)
   \<and> (\<forall>(lo, hi) \<in> set (scanBatches s head).
         s \<le> lo \<and> lo \<le> hi \<and> hi \<le> head \<and> hi - lo + 1 \<le> 25000)
   \<and> (scanned b (scanBatches s head)
        \<longleftrightarrow> s \<le> b \<and> b \<le> head \<and> s < head \<and> (b < head \<or> (head - s) mod 25000 \<noteq> 0))
   \<and> historicalRanges (Some head) head = Some []
   \<and> \<not> scanned head (scanBatches head head)
   \<and> (scanned head (pollBatches s head) \<longleftrightarrow> s \<le> head)"
proof -
  have ranges: "\<forall>(lo, hi) \<in> set (scanBatches s head).
      s \<le> lo \<and> lo \<le> hi \<and> hi \<le> head \<and> hi - lo + 1 \<le> 25000"
    using scanBatches_sizes [of _ _ s head] by blast
  have none: "scanBatches head head = []"
    by (subst scanBatches.simps) simp
  show ?thesis
    using ranges none scanned_scanBatches [of b s head] scanned_pollBatches [of head s head]
    by (simp add: historicalRanges_def totalBlocksToScan_def scanned_def)
qed

theorem historical_sweep_stops_before_head_witness:
  "historicalRanges (Some 100) 100 = Some []
   \<and> historicalRanges (Some 101) 100 = None
   \<and> historicalRanges (Some 0) 50000 = Some [(0, 24999), (25000, 49999)]
   \<and> \<not> scanned 50000 (scanBatches 0 50000)
   \<and> scanned 50000 (pollBatches 0 50000)
   \<and> historicalRanges None 50001 = Some [(0, 24999), (25000, 49999), (50000, 50001)]"
  using historical_sweep_stops_before_head [of 100 100 100]
        historical_sweep_stops_before_head [of 101 100 100]
        historical_sweep_stops_before_head [of 0 50000 50000]
  by (simp add: historicalRanges_def totalBlocksToScan_def batchSize_def scanBatches.simps)


subsection \<open>Serializing the proof instances\<close>

lemma parse_decimal_digits:
  assumes "list_all (\<lambda>c. 48 \<le> (of_char c :: nat) \<and> (of_char c :: nat) \<le> 57) s"
  shows "parse_decimal acc s = Some (foldl (\<lambda>acc c. acc * 10 + (of_char c - 48)) acc s)"
  using assms by (induction s arbitrary: acc) (simp_all add: digit_value_def)

lemma BN_decimal_of: "decimal_of s v \<Longrightarrow> BN_decimal s = Some v"
  by (auto simp: decimal_of_def BN_decimal_def parse_decimal_digits)

lemma zero_pad_short:
  assumes "0 < length s" and "length s \<le> p"
  shows "zero_pad p s = replicate (p - length s) CHR ''0'' @ s"
  using assms
proof (induction "p - length s" arbitrary: s)
  case 0
  then have "length s = p" by simp
  then show ?case
    by (subst zero_pad.simps) simp
next
  case (Suc n)
  then have lt: "length s < p" by simp
  then have "length s mod p \<noteq> 0"
    using Suc.prems(1) by simp
  then have "zero_pad p s = zero_pad p (CHR ''0'' # s)"
    using lt by (subst zero_pad.simps) simp
  also have "\<dots> = replicate (p - length (CHR ''0'' # s)) CHR ''0'' @ CHR ''0'' # s"
    using Suc.hyps(2) lt by (intro Suc.hyps(1)) simp_all
  also have "\<dots> = replicate (p - length s) CHR ''0'' @ s"
    using Suc.hyps(2) by (simp add: replicate_append_same flip: replicate_Suc)
  finally show ?case .
qed

lemma hex_fixed_zero: "hex_fixed k 0 = replicate k CHR ''0''"
  by (induction k) (simp_all add: hex_char_def replicate_append_same)

lemma length_hex_fixed: "length (hex_fixed k v) = k"
  by (induction k arbitrary: v) simp_all

lemma hex_digits_fixed:
  assumes "v < 16 ^ k" and "0 < k"
  shows "0 < length (hex_digits v) \<and> length (hex_digits v) \<le> k
       \<and> replicate (k - length (hex_digits v)) CHR ''0'' @ hex_digits v = hex_fixed k v"
  using assms
proof (induction k arbitrary: v)
  case 0
  then show ?case by simp
next
  case (Suc k)
  show ?case
  proof (cases "v < 16")
    case True
    then have "hex_digits v = [hex_char v]"
      by (subst hex_digits.simps) simp
    then show ?thesis
      using True by (simp add: hex_fixed_zero)
  next
    case False
    then have unfold: "hex_digits v = hex_digits (v div 16) @ [hex_char (v mod 16)]"
      by (subst hex_digits.simps) simp
    have small: "v div 16 < 16 ^ k"
      using Suc.prems(1) by (simp add: less_mult_imp_div_less mult.commute)
    have "0 < v div 16"
      using False by (simp add: div_greater_zero_iff)
    then have "0 < k"
      using small by (cases k) simp_all
    from Suc.IH [OF small this] show ?thesis
      unfolding unfold by simp
  qed
qed

lemma BN_toString_hex_64:
  assumes "v < 2 ^ 256"
  shows "BN_toString_hex 64 v = hex_fixed 64 v"
proof -
  have "(2::nat) ^ 256 = 16 ^ 64"
    by simp
  with assms have "v < 16 ^ 64"
    by simp
  from hex_digits_fixed [OF this] show ?thesis
    unfolding BN_toString_hex_def by (simp add: zero_pad_short)
qed

lemma limbs_fit:
  fixes a b c d :: nat
  assumes "a < 2 ^ 64" and "b < 2 ^ 64" and "c < 2 ^ 64" and "d < 2 ^ 64"
  shows "push_bit 192 a + push_bit 128 b + push_bit 64 c + d < 2 ^ 256"
  using assms by (simp add: push_bit_eq_mult)

lemma pack_limbs_values:
  assumes "BN_decimal (arr ! i) = Some a" and "BN_decimal (arr ! (i + 1)) = Some b"
    and "BN_decimal (arr ! (i + 2)) = Some c" and "BN_decimal (arr ! (i + 3)) = Some d"
    and "a < 2 ^ 64" and "b < 2 ^ 64" and "c < 2 ^ 64" and "d < 2 ^ 64"
  shows "pack_limbs arr i
       = Inr (''0x'' @ hex_fixed 64 (push_bit 192 a + push_bit 128 b + push_bit 64 c + d))"
  unfolding pack_limbs_def assms(1-4)
  by (simp add: BN_toString_hex_64 [OF limbs_fit [OF assms(5-8)]])

lemma hex_fixed_numeral:
  "hex_fixed (numeral k) v = hex_fixed (pred_numeral k) (v div 16) @ [hex_char (v mod 16)]"
  by (simp only: numeral_eq_Suc [of k] hex_fixed.simps)

lemma pack_limbs_at:
  assumes "list_all2 decimal_of arr vs" and "\<forall>v \<in> set vs. v < 2 ^ 64"
    and "i + 3 < length arr" and "j1 = i + 1" and "j2 = i + 2" and "j3 = i + 3"
  shows "pack_limbs arr i
       = Inr (''0x'' @ hex_fixed 64 (push_bit 192 (vs ! i) + push_bit 128 (vs ! j1)
                                      + push_bit 64 (vs ! j2) + vs ! j3))"
proof -
  have len: "length vs = length arr"
    using assms(1) by (simp add: list_all2_lengthD)
  have dec: "BN_decimal (arr ! j) = Some (vs ! j)" if "j < length arr" for j
    using assms(1) that by (simp add: BN_decimal_of list_all2_nthD)
  have bound: "vs ! j < 2 ^ 64" if "j < length arr" for j
    using assms(2) that len by simp
  have i0: "i < length arr" and i1: "i + 1 < length arr" and i2: "i + 2 < length arr"
    using assms(3) by simp_all
  have "pack_limbs arr i
      = Inr (''0x'' @ hex_fixed 64 (push_bit 192 (vs ! i) + push_bit 128 (vs ! (i + 1))
                                    + push_bit 64 (vs ! (i + 2)) + vs ! (i + 3)))"
    by (rule pack_limbs_values
          [OF dec [OF i0] dec [OF i1] dec [OF i2] dec [OF assms(3)]
              bound [OF i0] bound [OF i1] bound [OF i2] bound [OF assms(3)]])
  then show ?thesis
    unfolding assms(4-6) .
qed

text \<open>
  Claim C5. Let every element of \<open>instArr\<close> be the decimal numeral of a value below
  \<open>2^64\<close>. With at least 4 elements, \<open>extractMerkleRoot\<close> returns \<open>'0x'\<close> followed
  by the 64 hexadecimal digits, zero-padded and big-endian, of
  \<open>(inst[0] << 192) + (inst[1] << 128) + (inst[2] << 64) + inst[3]\<close>; likewise
  \<open>extractNewMerkleRoot\<close> from the index 4 with at least 8 elements and
  \<open>extractShaHash\<close> from the index 8 with at least 12. The three functions throw
  exactly when \<open>instArr\<close> has fewer than 4, 8 and 12 elements.
\<close>

theorem extraction_serializes_limbs:
  assumes "list_all2 decimal_of (instArr a) vs" and "\<forall>v \<in> set vs. v < 2 ^ 64"
  shows "(4 \<le> length (instArr a) \<longrightarrow>
            extractMerkleRoot a
              = Inr (''0x'' @ hex_fixed 64 (push_bit 192 (vs ! 0) + push_bit 128 (vs ! 1)
                                            + push_bit 64 (vs ! 2) + vs ! 3)))
     \<and> (8 \<le> length (instArr a) \<longrightarrow>
            extractNewMerkleRoot a
              = Inr (''0x'' @ hex_fixed 64 (push_bit 192 (vs ! 4) + push_bit 128 (vs ! 5)
                                            + push_bit 64 (vs ! 6) + vs ! 7)))
     \<and> (12 \<le> length (instArr a) \<longrightarrow>
            extractShaHash a
              = Inr (''0x'' @ hex_fixed 64 (push_bit 192 (vs ! 8) + push_bit 128 (vs ! 9)
                                            + push_bit 64 (vs ! 10) + vs ! 11)))
     \<and> (isl (extractMerkleRoot a) \<longleftrightarrow> length (instArr a) < 4)
     \<and> (isl (extractNewMerkleRoot a) \<longleftrightarrow> length (instArr a) < 8)
     \<and> (isl (extractShaHash a) \<longleftrightarrow> length (instArr a) < 12)"
proof -
  note pack = pack_limbs_at [OF assms]
  have root: "extractMerkleRoot a
      = Inr (''0x'' @ hex_fixed 64 (push_bit 192 (vs ! 0) + push_bit 128 (vs ! 1)
                                    + push_bit 64 (vs ! 2) + vs ! 3))"
    if "4 \<le> length (instArr a)"
  proof -
    have "pack_limbs (instArr a) 0
        = Inr (''0x'' @ hex_fixed 64 (push_bit 192 (vs ! 0) + push_bit 128 (vs ! 1)
                                      + push_bit 64 (vs ! 2) + vs ! 3))"
      by (rule pack) (use that in simp_all)
    then show ?thesis
      unfolding extractMerkleRoot_def using that by simp
  qed
  have new_root: "extractNewMerkleRoot a
      = Inr (''0x'' @ hex_fixed 64 (push_bit 192 (vs ! 4) + push_bit 128 (vs ! 5)
                                    + push_bit 64 (vs ! 6) + vs ! 7))"
    if "8 \<le> length (instArr a)"
  proof -
    have "pack_limbs (instArr a) 4
        = Inr (''0x'' @ hex_fixed 64 (push_bit 192 (vs ! 4) + push_bit 128 (vs ! 5)
                                      + push_bit 64 (vs ! 6) + vs ! 7))"
      by (rule pack) (use that in simp_all)
    then show ?thesis
      unfolding extractNewMerkleRoot_def using that by simp
  qed
  have sha: "extractShaHash a
      = Inr (''0x'' @ hex_fixed 64 (push_bit 192 (vs ! 8) + push_bit 128 (vs ! 9)
                                    + push_bit 64 (vs ! 10) + vs ! 11))"
    if "12 \<le> length (instArr a)"
  proof -
    have "pack_limbs (instArr a) 8
        = Inr (''0x'' @ hex_fixed 64 (push_bit 192 (vs ! 8) + push_bit 128 (vs ! 9)
                                      + push_bit 64 (vs ! 10) + vs ! 11))"
      by (rule pack) (use that in simp_all)
    then show ?thesis
      unfolding extractShaHash_def using that by simp
  qed
  have e1: "isl (extractMerkleRoot a) \<longleftrightarrow> length (instArr a) < 4"
    using root by (cases "length (instArr a) < 4") (simp_all add: extractMerkleRoot_def)
  have e2: "isl (extractNewMerkleRoot a) \<longleftrightarrow> length (instArr a) < 8"
    using new_root by (cases "length (instArr a) < 8") (simp_all add: extractNewMerkleRoot_def)
  have e3: "isl (extractShaHash a) \<longleftrightarrow> length (instArr a) < 12"
    using sha by (cases "length (instArr a) < 12") (simp_all add: extractShaHash_def)
  from root new_root sha e1 e2 e3 show ?thesis
    by blast
qed

lemma demo_decimal:
  "list_all2 decimal_of (instArr demo_attributes)
     [910400006888094404, 18142358643817710901, 11743083299358509370, 557062474596129021,
      15610985209716397462, 14566187743782344128, 5237131197396905609, 288166984414608746,
      16406829232824261652, 11167788843400149284, 2859295262623109964, 11859553537011923029]"
  by (simp add: demo_attributes_def decimal_of_def)

theorem extraction_serializes_limbs_witness:
  "extractMerkleRoot demo_attributes
     = Inr ''0x0ca263fb9613fac4fbc69b10707e0535a2f7d00b1216093a07bb155e840098fd''
   \<and> extractNewMerkleRoot demo_attributes
     = Inr ''0xd8a55c567305d596ca257e93f7cb95c048ae071396f56e8903ffc65876073d6a''
   \<and> extractShaHash demo_attributes
     = Inr ''0xe3b0c44298fc1c149afbf4c8996fb92427ae41e4649b934ca495991b7852b855''
   \<and> extractShaHash (demo_attributes\<lparr>instArr := take 11 (instArr demo_attributes)\<rparr>)
     = Inl (InstArrTooShort 12)"
proof -
  have len: "length (instArr demo_attributes) = 12"
    by (simp add: demo_attributes_def)
  have short: "extractShaHash (demo_attributes\<lparr>instArr := take 11 (instArr demo_attributes)\<rparr>)
     = Inl (InstArrTooShort 12)"
    by (simp add: extractShaHash_def demo_attributes_def)
  show ?thesis
    using extraction_serializes_limbs [OF demo_decimal] len short
    by (simp add: hex_fixed_numeral push_bit_eq_mult hex_char_def)
qed


end
